theory Spec2Isabelle
  imports Complex_Main
begin

section \<open>Byte strings of the source language\<close>

text \<open>
  The identifiers handled by \<^verbatim>\<open>sentry/models/group.py\<close> are byte strings; a string is a
  list of 8-bit characters. The character classes are those of the source's regular
  expression (compiled without the UNICODE flag) and of \<^verbatim>\<open>str.strip\<close>,
  \<^verbatim>\<open>str.lower\<close> and \<^verbatim>\<open>str.isdigit\<close> in the C locale.
\<close>

definition LF :: char where
  "LF = CHR 0x0A"

definition CR :: char where
  "CR = CHR 0x0D"

definition is_space :: "char \<Rightarrow> bool" where
  "is_space c = (c = CHR 0x20 \<or> c = CHR 0x09 \<or> c = CHR 0x0A \<or> c = CHR 0x0B
     \<or> c = CHR 0x0C \<or> c = CHR 0x0D)"

definition is_upper :: "char \<Rightarrow> bool" where
  "is_upper c = (65 \<le> (of_char c :: nat) \<and> (of_char c :: nat) \<le> 90)"

definition is_lower :: "char \<Rightarrow> bool" where
  "is_lower c = (97 \<le> (of_char c :: nat) \<and> (of_char c :: nat) \<le> 122)"

definition is_digit :: "char \<Rightarrow> bool" where
  "is_digit c = (48 \<le> (of_char c :: nat) \<and> (of_char c :: nat) \<le> 57)"

text \<open>The class \<^verbatim>\<open>[A-Za-z0-9]\<close>.\<close>

definition is_alnum :: "char \<Rightarrow> bool" where
  "is_alnum c = (is_upper c \<or> is_lower c \<or> is_digit c)"

text \<open>The class \<^verbatim>\<open>[\s_-]\<close>.\<close>

definition is_sep :: "char \<Rightarrow> bool" where
  "is_sep c = (is_space c \<or> c = CHR ''_'' \<or> c = CHR ''-'')"

definition lower_char :: "char \<Rightarrow> char" where
  "lower_char c = (if is_upper c then char_of ((of_char c :: nat) + 32) else c)"

definition upper_char :: "char \<Rightarrow> char" where
  "upper_char c = (if is_lower c then char_of ((of_char c :: nat) - 32) else c)"

definition lower :: "string \<Rightarrow> string" where
  "lower s = map lower_char s"

definition upper :: "string \<Rightarrow> string" where
  "upper s = map upper_char s"

text \<open>\<^verbatim>\<open>s.strip()\<close>: leading and trailing whitespace removed.\<close>

definition py_strip :: "string \<Rightarrow> string" where
  "py_strip s = rev (dropWhile is_space (rev (dropWhile is_space s)))"

text \<open>\<^verbatim>\<open>s.isdigit()\<close>: non-empty and all digits.\<close>

definition isdigit :: "string \<Rightarrow> bool" where
  "isdigit s = (s \<noteq> [] \<and> list_all is_digit s)"

section \<open>The short id grammar\<close>

text \<open>
  \<^verbatim>\<open>_short_id_re = re.compile(r'^(.*?)(?:[\s_-])([A-Za-z0-9]+)$')\<close>, applied with
  \<^verbatim>\<open>match\<close>, that is at position 0 only.

  \<open>re_tail\<close> is the part \<^verbatim>\<open>([A-Za-z0-9]+)$\<close> on the rest of the subject: the
  greedy run of alphanumerics, which must be non-empty and must end the subject
  (\<^verbatim>\<open>$\<close> also matches just before a final line feed). A shorter run is followed
  by an alphanumeric, where \<^verbatim>\<open>$\<close> fails, so only the longest run is tried.
\<close>

definition re_tail :: "string \<Rightarrow> string option" where
  "re_tail cs =
     (let t = takeWhile is_alnum cs; r = dropWhile is_alnum cs
      in if t \<noteq> [] \<and> (r = [] \<or> r = [LF]) then Some t else None)"

text \<open>
  The lazy prefix \<^verbatim>\<open>(.*?)\<close> is tried shortest first: at each position the rest of
  the pattern is attempted, and only when it fails is the prefix extended by one
  character, which \<^verbatim>\<open>.\<close> accepts unless it is a line feed. The result is the
  pair of groups.
\<close>

fun short_id_re :: "string \<Rightarrow> (string \<times> string) option" where
  "short_id_re [] = None"
| "short_id_re (c # cs) =
     (case (if is_sep c then re_tail cs else None) of
        Some t \<Rightarrow> Some ([], t)
      | None \<Rightarrow>
          if c = LF then None
          else (case short_id_re cs of
                  None \<Rightarrow> None
                | Some (p, t) \<Rightarrow> Some (c # p, t)))"

type_synonym ShortId = "string \<times> int"

text \<open>
  \<^verbatim>\<open>parse_short_id\<close>. The decoder \<^verbatim>\<open>base32_decode\<close> of
  \<^verbatim>\<open>sentry.utils.numbers\<close> and the constant \<^verbatim>\<open>MAX_VALUE\<close> of the
  \<^verbatim>\<open>short_id\<close> field are not part of the sources at hand; they are parameters.
  The decoder returns \<open>None\<close> where it raises \<^verbatim>\<open>ValueError\<close>. The result
  \<open>None\<close> is the source's \<^verbatim>\<open>return None\<close>.
\<close>

definition parse_short_id :: "(string \<Rightarrow> int option) \<Rightarrow> int \<Rightarrow> string \<Rightarrow> ShortId option" where
  "parse_short_id base32_decode max_id short_id =
     (case short_id_re (py_strip short_id) of
        None \<Rightarrow> None
      | Some (slug, ident) \<Rightarrow>
          (let slug = lower slug in
           case base32_decode ident of
             None \<Rightarrow> None
           | Some n \<Rightarrow> if n > max_id then None else Some (slug, n)))"

definition looks_like_short_id :: "string \<Rightarrow> bool" where
  "looks_like_short_id v = (short_id_re (py_strip v) \<noteq> None)"


text \<open>
  \<^verbatim>\<open>get_group_with_redirect\<close> and the qualified short id need the inverse direction,
  \<^verbatim>\<open>base32_encode\<close>, which is a parameter as well. For concrete evaluations the
  following instance is used: base 32 over the digits and the capital letters without
  I, L, O and U, most significant digit first, read case-insensitively.
\<close>

definition base32_alphabet :: string where
  "base32_alphabet = ''0123456789ABCDEFGHJKMNPQRSTVWXYZ''"

fun alphabet_index :: "string \<Rightarrow> char \<Rightarrow> int option" where
  "alphabet_index [] c = None"
| "alphabet_index (a # as) c =
     (if a = c then Some 0 else map_option (\<lambda>i. i + 1) (alphabet_index as c))"

fun decode_digits :: "int \<Rightarrow> string \<Rightarrow> int option" where
  "decode_digits rv [] = Some rv"
| "decode_digits rv (c # cs) =
     (case alphabet_index base32_alphabet c of
        None \<Rightarrow> None
      | Some i \<Rightarrow> decode_digits (rv * 32 + i) cs)"

definition example_decode :: "string \<Rightarrow> int option" where
  "example_decode s = decode_digits 0 (upper s)"

section \<open>The Group aggregate\<close>

text \<open>
  A \<^verbatim>\<open>datetime\<close> is the number of microseconds since the Unix epoch, the
  resolution of the source's timestamps; the range limits of the datetime type are not
  modelled. \<^verbatim>\<open>timedelta(hours=h)\<close> is \<open>hours h\<close>, and
  \<^verbatim>\<open>strftime('%s')\<close> gives the whole seconds \<open>unix_seconds\<close>.
\<close>

type_synonym datetime = int

definition hours :: "int \<Rightarrow> int" where
  "hours h = h * 3600000000"

definition unix_seconds :: "datetime \<Rightarrow> int" where
  "unix_seconds t = t div 1000000"

datatype GroupStatus =
  UNRESOLVED | RESOLVED | IGNORED | PENDING_DELETION | DELETION_IN_PROGRESS | PENDING_MERGE

datatype py_error = TypeError | IndexError | KeyError

text \<open>
  The project a group belongs to, with the fields the group code reads:
  \<open>resolve_age\<close> is the project option \<^verbatim>\<open>sentry:resolve_age\<close>, \<open>None\<close> when
  the option is not set.
\<close>

record project =
  project_id :: int
  slug :: string
  organization :: int
  resolve_age :: "int option"

text \<open>
  The fields of \<^verbatim>\<open>Group\<close> that the modelled methods read or write. The
  methods modelled here dereference \<^verbatim>\<open>self.project\<close>; the record holds the
  project itself. A field that
  \<^verbatim>\<open>save\<close> tests for being unset is an option. \<open>times_seen\<close> is a
  \<^verbatim>\<open>BoundedPositiveIntegerField\<close>, a natural number. \<open>score\<close> is computed in
  floating point by the source; the model computes it in the reals, so rounding is
  not modelled.
\<close>

record group =
  id' :: int
  project :: project
  message :: string
  status :: GroupStatus
  times_seen :: "nat option"
  last_seen :: "datetime option"
  first_seen :: "datetime option"
  active_at :: "datetime option"
  score :: real
  short_id :: "int option"

subsection \<open>Score\<close>

text \<open>
  \<^verbatim>\<open>math.log(float(times_seen or 1)) * 600 + float(last_seen.strftime('%s'))\<close>:
  \<^verbatim>\<open>times_seen or 1\<close> is 1 for \<^verbatim>\<open>None\<close> and for 0.
\<close>

definition calculate_score :: "nat option \<Rightarrow> datetime \<Rightarrow> real" where
  "calculate_score times_seen1 last_seen1 =
     ln (real (case times_seen1 of None \<Rightarrow> 1 | Some n \<Rightarrow> if n = 0 then 1 else n)) * 600
       + real_of_int (unix_seconds last_seen1)"

subsection \<open>Status resolution\<close>

text \<open>
  \<^verbatim>\<open>is_over_resolve_age\<close>, with the current time as an argument.
  \<^verbatim>\<open>not resolve_age\<close> holds for an unset option and for 0. Comparing an unset
  \<open>last_seen\<close> with a datetime raises \<^verbatim>\<open>TypeError\<close>.
\<close>

definition is_over_resolve_age :: "datetime \<Rightarrow> group \<Rightarrow> py_error + bool" where
  "is_over_resolve_age now g =
     (case resolve_age (project g) of
        None \<Rightarrow> Inr False
      | Some age \<Rightarrow>
          if age = 0 then Inr False
          else (case last_seen g of
                  None \<Rightarrow> Inl TypeError
                | Some t \<Rightarrow> Inr (t < now - hours age)))"

text \<open>
  \<^verbatim>\<open>get_status\<close>. The snooze record is external: \<open>snooze\<close> is the result of
  \<^verbatim>\<open>GroupSnooze.objects.get(group=self)\<close>, \<open>None\<close> for
  \<^verbatim>\<open>GroupSnooze.DoesNotExist\<close>, and \<open>is_valid\<close> is its method.
\<close>

definition get_status ::
    "datetime \<Rightarrow> 's option \<Rightarrow> ('s \<Rightarrow> group \<Rightarrow> bool) \<Rightarrow> group \<Rightarrow> py_error + GroupStatus" where
  "get_status now snooze is_valid g =
     (let st = status g;
          st = (if st = IGNORED
                then (case snooze of
                        None \<Rightarrow> st
                      | Some sn \<Rightarrow> if \<not> is_valid sn g then UNRESOLVED else st)
                else st)
      in if st = UNRESOLVED
         then (case is_over_resolve_age now g of
                 Inl e \<Rightarrow> Inl e
               | Inr over \<Rightarrow> if over then Inr RESOLVED else Inr st)
         else Inr st)"

subsection \<open>Save\<close>

text \<open>
  \<^verbatim>\<open>str.splitlines\<close>: lines end at a line feed, a carriage return, or the pair
  of a carriage return and a line feed; a final line break opens no further line.
\<close>

fun splitlines_from :: "string \<Rightarrow> string \<Rightarrow> string list" where
  "splitlines_from cur [] = (if cur = [] then [] else [rev cur])"
| "splitlines_from cur (c # cs) =
     (if c = CR then
        (case cs of
           [] \<Rightarrow> [rev cur]
         | d # ds \<Rightarrow> if d = LF then rev cur # splitlines_from [] ds
                    else rev cur # splitlines_from [] cs)
      else if c = LF then rev cur # splitlines_from [] cs
      else splitlines_from (c # cur) cs)"

definition splitlines :: "string \<Rightarrow> string list" where
  "splitlines s = splitlines_from [] s"

text \<open>
  Modelled from the spec: \<^verbatim>\<open>strip\<close> of \<^verbatim>\<open>sentry.utils.strings\<close> is not among
  the sources; the spec says the message is "whitespace-stripped".
\<close>

definition strip :: "string \<Rightarrow> string" where
  "strip v = py_strip v"

text \<open>
  Modelled from the spec: \<^verbatim>\<open>truncatechars\<close> of \<^verbatim>\<open>sentry.utils.strings\<close> is not
  among the sources; the spec says the first line is "truncated to 255 characters".
\<close>

definition truncatechars :: "string \<Rightarrow> nat \<Rightarrow> string" where
  "truncatechars v n = take n v"

text \<open>
  \<^verbatim>\<open>Group.save\<close>, with the current time as an argument. The result is the
  instance as it is handed to the storage layer; the write itself is not modelled.
  A datetime is never false, so \<^verbatim>\<open>not self.last_seen\<close> holds exactly for an
  unset field.
\<close>

definition save :: "datetime \<Rightarrow> group \<Rightarrow> py_error + group" where
  "save now g =
     (let last_seen1 = (case last_seen g of None \<Rightarrow> now | Some t \<Rightarrow> t);
          first_seen1 = (case first_seen g of None \<Rightarrow> last_seen1 | Some t \<Rightarrow> t);
          active_at1 = (case active_at g of None \<Rightarrow> first_seen1 | Some t \<Rightarrow> t);
          message1 = strip (message g)
      in case (if message1 \<noteq> []
               then (case splitlines message1 of
                       [] \<Rightarrow> Inl IndexError
                     | l # _ \<Rightarrow> Inr (truncatechars l 255))
               else Inr message1) of
           Inl e \<Rightarrow> Inl e
         | Inr message2 \<Rightarrow>
             (let times_seen1 = (case times_seen g of None \<Rightarrow> 1 | Some n \<Rightarrow> n)
              in Inr (g\<lparr>last_seen := Some last_seen1,
                        first_seen := Some first_seen1,
                        active_at := Some active_at1,
                        message := message2,
                        times_seen := Some times_seen1,
                        score := calculate_score (Some times_seen1) last_seen1\<rparr>)))"

section \<open>Lookup\<close>

text \<open>
  The storage layer is a list of rows. \<^verbatim>\<open>QuerySet.get\<close> returns the one row that
  satisfies the conditions and raises \<^verbatim>\<open>DoesNotExist\<close> when there is none and
  \<^verbatim>\<open>MultipleObjectsReturned\<close> when there are several; an insert that breaks a
  uniqueness constraint raises \<^verbatim>\<open>IntegrityError\<close>; a lookup by a value above
  the maximum of a bounded integer field fails with \<^verbatim>\<open>AssertionError\<close>.
\<close>

datatype db_error = DoesNotExist | MultipleObjectsReturned | IntegrityError | AssertionError

definition queryset_get :: "('a \<Rightarrow> bool) \<Rightarrow> 'a list \<Rightarrow> db_error + 'a" where
  "queryset_get cond rows =
     (case filter cond rows of
        [] \<Rightarrow> Inl DoesNotExist
      | [r] \<Rightarrow> Inr r
      | _ # _ # _ \<Rightarrow> Inl MultipleObjectsReturned)"

subsection \<open>The redirect ledger\<close>

record GroupRedirect =
  group_id :: int
  previous_group_id :: int
  previous_short_id :: "int option"
  previous_project_slug :: "string option"

text \<open>
  The constraints of the table: \<^verbatim>\<open>previous_group_id\<close> is unique, and so is the pair
  of \<^verbatim>\<open>previous_short_id\<close> and \<^verbatim>\<open>previous_project_slug\<close>, where a row with a
  null in the pair conflicts with no other row.
\<close>

definition redirect_conflict :: "GroupRedirect list \<Rightarrow> GroupRedirect \<Rightarrow> bool" where
  "redirect_conflict redirects r =
     (list_ex (\<lambda>x. previous_group_id x = previous_group_id r) redirects
      \<or> (previous_short_id r \<noteq> None \<and> previous_project_slug r \<noteq> None
          \<and> list_ex (\<lambda>x. previous_short_id x = previous_short_id r
                          \<and> previous_project_slug x = previous_project_slug r) redirects))"

text \<open>\<^verbatim>\<open>GroupRedirect.create_for_group\<close>; the result is the table after the insert.\<close>

definition create_for_group ::
    "GroupRedirect list \<Rightarrow> group \<Rightarrow> group \<Rightarrow> db_error + GroupRedirect list" where
  "create_for_group redirects from_group to_group =
     (let r = \<lparr>group_id = id' to_group,
                previous_group_id = id' from_group,
                previous_short_id = short_id from_group,
                previous_project_slug = Some (slug (project from_group))\<rparr>
      in if redirect_conflict redirects r then Inl IntegrityError
         else Inr (redirects @ [r]))"

subsection \<open>Lookup with redirect\<close>

text \<open>
  The argument of \<^verbatim>\<open>get_group_with_redirect\<close> is an integer or a string. A string
  of digits is an id, which the query converts to an integer.
\<close>

datatype token = IntId int | StrId string

definition int_of_digits :: "string \<Rightarrow> int" where
  "int_of_digits s = foldl (\<lambda>a c. a * 10 + (int (of_char c) - 48)) 0 s"

text \<open>The dictionary \<^verbatim>\<open>params\<close>: either an id, or a project slug and a short id.\<close>

datatype params = ById int | ByShortId string int

fun lookup_params :: "(string \<Rightarrow> int option) \<Rightarrow> int \<Rightarrow> token \<Rightarrow> db_error + params" where
  "lookup_params base32_decode max_id (IntId i) = Inr (ById i)"
| "lookup_params base32_decode max_id (StrId s) =
     (if \<not> isdigit s
      then (case parse_short_id base32_decode max_id s of
              None \<Rightarrow> Inl DoesNotExist
            | Some (project_slug, n) \<Rightarrow> Inr (ByShortId project_slug n))
      else Inr (ById (int_of_digits s)))"

fun group_matches :: "params \<Rightarrow> group \<Rightarrow> bool" where
  "group_matches (ById i) g = (id' g = i)"
| "group_matches (ByShortId project_slug n) g =
     (slug (project g) = project_slug \<and> short_id g = Some n)"

fun redirect_matches :: "params \<Rightarrow> GroupRedirect \<Rightarrow> bool" where
  "redirect_matches (ById i) r = (previous_group_id r = i)"
| "redirect_matches (ByShortId project_slug n) r =
     (previous_short_id r = Some n \<and> previous_project_slug r = Some project_slug)"

text \<open>
  \<^verbatim>\<open>queryset.get(**params)\<close> on the groups. The comment in
  \<^verbatim>\<open>parse_short_id\<close> says that a lookup by a short id above the field's
  \<^verbatim>\<open>MAX_VALUE\<close> fails with an assertion error, which is why the parser checks the
  decoded value; an id is passed to the lookup unchecked. The id is a field of the same
  bounded kind, with the same maximum.
\<close>

definition bounded_get :: "int \<Rightarrow> params \<Rightarrow> group list \<Rightarrow> db_error + group" where
  "bounded_get max_id ps rows =
     (if (case ps of ById i \<Rightarrow> i > max_id | ByShortId project_slug n \<Rightarrow> n > max_id)
      then Inl AssertionError
      else queryset_get (group_matches ps) rows)"

text \<open>
  An exception is an object: the \<^verbatim>\<open>DoesNotExist\<close> of the first lookup and the one
  of the second are different instances of one class. An error of
  \<^verbatim>\<open>get_group_with_redirect\<close> is therefore paired with the step that raised it.
\<close>

datatype lookup_step = Parsing | FirstLookup | SecondLookup

text \<open>
  \<^verbatim>\<open>get_group_with_redirect\<close> over the rows \<open>queryset\<close> and the redirect table. The
  cached getter used when no queryset is passed reads the same rows. The second lookup
  asks for the group whose id is among the \<^verbatim>\<open>group_id\<close>s of the matching
  redirects; when it misses, the error of the first lookup is raised again
  (\<^verbatim>\<open>raise error\<close>), and any other error of the second lookup propagates.
\<close>

definition get_group_with_redirect ::
    "(string \<Rightarrow> int option) \<Rightarrow> int \<Rightarrow> group list \<Rightarrow> GroupRedirect list \<Rightarrow> token
       \<Rightarrow> (lookup_step \<times> db_error) + (group \<times> bool)" where
  "get_group_with_redirect base32_decode max_id queryset redirects id_or_qualified_short_id =
     (case lookup_params base32_decode max_id id_or_qualified_short_id of
        Inl e \<Rightarrow> Inl (Parsing, e)
      | Inr ps \<Rightarrow>
          (case bounded_get max_id ps queryset of
             Inr g \<Rightarrow> Inr (g, False)
           | Inl error \<Rightarrow>
               if error = DoesNotExist
               then (let ids = map group_id (filter (redirect_matches ps) redirects)
                     in case queryset_get (\<lambda>g. id' g \<in> set ids) queryset of
                          Inr g \<Rightarrow> Inr (g, True)
                        | Inl e \<Rightarrow>
                            if e = DoesNotExist then Inl (FirstLookup, error)
                            else Inl (SecondLookup, e))
               else Inl (FirstLookup, error)))"

text \<open>
  A token that stands for the id \<open>i\<close>: the integer itself, or a string of digits that
  reads as \<open>i\<close>.
\<close>

definition token_is_id :: "token \<Rightarrow> int \<Rightarrow> bool" where
  "token_is_id tok i =
     (case tok of IntId k \<Rightarrow> k = i | StrId s \<Rightarrow> isdigit s \<and> int_of_digits s = i)"

subsection \<open>Qualified short ids\<close>

text \<open>
  The property \<^verbatim>\<open>qualified_short_id\<close>; the encoder \<^verbatim>\<open>base32_encode\<close> of
  \<^verbatim>\<open>sentry.utils.numbers\<close> is a parameter.
\<close>

definition qualified_short_id :: "(int \<Rightarrow> string) \<Rightarrow> group \<Rightarrow> string option" where
  "qualified_short_id base32_encode g =
     (case short_id g of
        None \<Rightarrow> None
      | Some n \<Rightarrow> Some (upper (slug (project g)) @ ''-'' @ base32_encode n))"

text \<open>\<^verbatim>\<open>GroupManager.by_qualified_short_id\<close>.\<close>

definition by_qualified_short_id ::
    "(string \<Rightarrow> int option) \<Rightarrow> int \<Rightarrow> group list \<Rightarrow> int \<Rightarrow> string \<Rightarrow> db_error + group" where
  "by_qualified_short_id base32_decode max_id groups organization_id token =
     (case parse_short_id base32_decode max_id token of
        None \<Rightarrow> Inl DoesNotExist
      | Some (project_slug, n) \<Rightarrow>
          queryset_get
            (\<lambda>g. organization (project g) = organization_id
                \<and> slug (project g) = project_slug
                \<and> short_id g = Some n)
            (filter (\<lambda>g. \<not> List.member
                       [PENDING_DELETION, DELETION_IN_PROGRESS, PENDING_MERGE] (status g))
               groups))"

text \<open>
  What the theorems about qualified short ids ask of the parameters. A project slug
  holds no capital letter and no whitespace. The codec is the pair of the encoder and
  the decoder: the encoding of \<open>n\<close> is a non-empty alphanumeric string that decodes
  to \<open>n\<close>.
\<close>

definition slug_ok :: "string \<Rightarrow> bool" where
  "slug_ok s = list_all (\<lambda>c. \<not> is_upper c \<and> \<not> is_space c) s"

definition codec_ok :: "(string \<Rightarrow> int option) \<Rightarrow> (int \<Rightarrow> string) \<Rightarrow> int \<Rightarrow> bool" where
  "codec_ok base32_decode base32_encode n =
     (base32_decode (base32_encode n) = Some n \<and> base32_encode n \<noteq> []
      \<and> list_all is_alnum (base32_encode n))"

text \<open>An encoder for the example decoder, for non-negative numbers.\<close>

function encode_digits :: "nat \<Rightarrow> string \<Rightarrow> string" where
  "encode_digits n acc =
     (if n = 0 then acc else encode_digits (n div 32) (base32_alphabet ! (n mod 32) # acc))"
  by pat_completeness auto
termination
  by (relation "measure fst") auto

definition example_encode :: "int \<Rightarrow> string" where
  "example_encode n = (if n = 0 then ''0'' else encode_digits (nat n) [])"

section \<open>Team creation\<close>

text \<open>
  \<^verbatim>\<open>OrganizationTeamsEndpoint.post\<close> of
  \<^verbatim>\<open>sentry/api/endpoints/organization_teams.py\<close>. The request body and the
  validated attributes are dictionaries from field names to strings.
\<close>

definition CONFLICTING_SLUG_ERROR :: string where
  "CONFLICTING_SLUG_ERROR = ''A team with this slug already exists.''"

type_synonym attrs = "string \<rightharpoonup> string"

text \<open>The truth value of \<^verbatim>\<open>attrs.get(key)\<close>: false for a missing key and for \<open>''\<close>.\<close>

definition truthy :: "string option \<Rightarrow> bool" where
  "truthy v = (case v of None \<Rightarrow> False | Some x \<Rightarrow> x \<noteq> [])"

subsection \<open>The serializer\<close>

text \<open>
  The fields of \<^verbatim>\<open>TeamSerializer\<close>: \<^verbatim>\<open>name\<close>, at most 64 characters, and
  \<^verbatim>\<open>slug\<close>, at most 50 characters that match \<^verbatim>\<open>^[a-z0-9_\-]+$\<close>; neither is
  required, and an empty value passes the validators. The framework's own messages are
  represented by their error codes.
\<close>

definition is_slug_char :: "char \<Rightarrow> bool" where
  "is_slug_char c = (is_lower c \<or> is_digit c \<or> c = CHR ''_'' \<or> c = CHR ''-'')"

definition slug_re_match :: "string \<Rightarrow> bool" where
  "slug_re_match v =
     (let t = takeWhile is_slug_char v; r = dropWhile is_slug_char v
      in t \<noteq> [] \<and> (r = [] \<or> r = [LF]))"

definition name_errors :: "string option \<Rightarrow> string list" where
  "name_errors v =
     (case v of
        None \<Rightarrow> []
      | Some x \<Rightarrow> if x \<noteq> [] \<and> length x > 64 then [''max_length''] else [])"

definition slug_errors :: "string option \<Rightarrow> string list" where
  "slug_errors v =
     (case v of
        None \<Rightarrow> []
      | Some x \<Rightarrow>
          if x = [] then []
          else (if length x > 50 then [''max_length''] else [])
             @ (if \<not> slug_re_match x
                then [''Enter a valid slug consisting of lowercase letters, numbers, underscores or hyphens.'']
                else []))"

text \<open>\<^verbatim>\<open>TeamSerializer.validate\<close>.\<close>

definition validate :: "attrs \<Rightarrow> string list + attrs" where
  "validate attrs =
     (if \<not> (truthy (attrs ''name'') \<or> truthy (attrs ''slug''))
      then Inl [''Name or slug is required'']
      else Inr attrs)"

datatype json_value = JStr string | JList "string list"

text \<open>
  \<^verbatim>\<open>serializer.is_valid()\<close> with \<^verbatim>\<open>serializer.errors\<close> and
  \<^verbatim>\<open>serializer.object\<close>: the declared fields are validated one by one; when none
  fails, \<^verbatim>\<open>validate\<close> runs on the attributes, and its error is reported under
  \<^verbatim>\<open>non_field_errors\<close>. \<open>Inl\<close> holds the error dictionary.
\<close>

definition serializer_is_valid :: "attrs \<Rightarrow> (string \<times> json_value) list + attrs" where
  "serializer_is_valid data =
     (let field_errors =
            (if name_errors (data ''name'') \<noteq> []
             then [(''name'', JList (name_errors (data ''name'')))] else [])
          @ (if slug_errors (data ''slug'') \<noteq> []
             then [(''slug'', JList (slug_errors (data ''slug'')))] else [])
      in if field_errors \<noteq> [] then Inl field_errors
         else (case validate (data |` {''name'', ''slug''}) of
                 Inl messages \<Rightarrow> Inl [(''non_field_errors'', JList messages)]
               | Inr attrs \<Rightarrow> Inr attrs))"

subsection \<open>Teams\<close>

record team =
  team_id :: int
  team_name :: string
  team_slug :: string
  team_organization :: int

text \<open>
  Modelled from the spec: \<^verbatim>\<open>Team.objects.create\<close> is not among the sources. The
  spec says that the slug is "auto-derived from name if absent" and that a slug
  collision in the same organization is a uniqueness violation of the storage layer.
  The derivation is the parameter \<open>slugify\<close>; the result \<open>None\<close> is
  \<^verbatim>\<open>IntegrityError\<close>. The new team gets an unused id.
\<close>

definition team_create ::
    "(team list \<Rightarrow> int \<Rightarrow> string \<Rightarrow> string) \<Rightarrow> team list \<Rightarrow> string \<Rightarrow> string option \<Rightarrow> int
       \<Rightarrow> (team \<times> team list) option" where
  "team_create slugify teams name1 slug1 organization1 =
     (let s = (if truthy slug1 then the slug1 else slugify teams organization1 name1)
      in if list_ex (\<lambda>t. team_organization t = organization1 \<and> team_slug t = s) teams
         then None
         else (let t = \<lparr>team_id = fold max (map team_id teams) 0 + 1, team_name = name1,
                          team_slug = s, team_organization = organization1\<rparr>
               in Some (t, teams @ [t])))"

subsection \<open>The endpoint\<close>

record request =
  DATA :: attrs
  user :: int
  is_authenticated :: bool

datatype body = Dict "(string \<times> json_value) list" | Serialized team

record response =
  status_code :: nat
  data :: body

text \<open>
  What the endpoint reads and writes besides the teams: the organization members, by
  user and organization, the team memberships, the audit log entries (organization and
  team of each \<^verbatim>\<open>TEAM_ADD\<close> event) and the \<^verbatim>\<open>team_created\<close> signals sent.
\<close>

record backend =
  teams :: "team list"
  organization_members :: "int \<times> int \<rightharpoonup> int"
  member_teams :: "(int \<times> int) list"
  audit_log :: "(int \<times> int) list"
  team_created :: "team list"

text \<open>
  \<^verbatim>\<open>post\<close>. \<^verbatim>\<open>result['slug']\<close> raises \<^verbatim>\<open>KeyError\<close> for a missing key.
  \<^verbatim>\<open>serialize\<close> is external; the body of the 201 response is the team.
\<close>

definition post ::
    "(team list \<Rightarrow> int \<Rightarrow> string \<Rightarrow> string) \<Rightarrow> backend \<Rightarrow> request \<Rightarrow> int
       \<Rightarrow> py_error + (response \<times> backend)" where
  "post slugify b request1 organization1 =
     (case serializer_is_valid (DATA request1) of
        Inr result \<Rightarrow>
          (case (if truthy (result ''name'') then Inr (the (result ''name''))
                 else (case result ''slug'' of None \<Rightarrow> Inl KeyError | Some x \<Rightarrow> Inr x)) of
             Inl e \<Rightarrow> Inl e
           | Inr name1 \<Rightarrow>
               (case team_create slugify (teams b) name1 (result ''slug'') organization1 of
                  None \<Rightarrow>
                    Inr (\<lparr>status_code = 409,
                          data = Dict [(''non_field_errors'', JList [CONFLICTING_SLUG_ERROR]),
                                       (''detail'', JStr CONFLICTING_SLUG_ERROR)]\<rparr>, b)
                | Some (t, teams1) \<Rightarrow>
                    (let b1 = b\<lparr>teams := teams1, team_created := team_created b @ [t]\<rparr>;
                         b2 = (if is_authenticated request1
                               then (case organization_members b1 (user request1, organization1) of
                                       None \<Rightarrow> b1
                                     | Some member \<Rightarrow>
                                         b1\<lparr>member_teams := member_teams b1 @ [(team_id t, member)]\<rparr>)
                               else b1);
                         b3 = b2\<lparr>audit_log := audit_log b2 @ [(organization1, team_id t)]\<rparr>
                     in Inr (\<lparr>status_code = 201, data = Serialized t\<rparr>, b3))))
      | Inl errors \<Rightarrow> Inr (\<lparr>status_code = 400, data = Dict errors\<rparr>, b))"

text \<open>The first line of a string: the characters before its first line break.\<close>

definition first_line :: "string \<Rightarrow> string" where
  "first_line s = takeWhile (\<lambda>c. c \<noteq> LF \<and> c \<noteq> CR) s"

subsection \<open>A concrete group\<close>

text \<open>An instance of the records, for evaluating the model on concrete inputs.\<close>

definition example_project :: project where
  "example_project = \<lparr>project_id = 1, slug = ''project'', organization = 1, resolve_age = Some 24\<rparr>"

definition example_group :: group where
  "example_group = \<lparr>id' = 7, project = example_project, message = ''boom'', status = IGNORED,
     times_seen = Some 3, last_seen = Some 1000000, first_seen = Some 1000000,
     active_at = Some 1000000, score = 0, short_id = Some 44\<rparr>"

text \<open>A second group of the same project, the survivor of a merge.\<close>

definition example_survivor :: group where
  "example_survivor = \<lparr>id' = 9, project = example_project, message = ''boom'', status = UNRESOLVED,
     times_seen = Some 5, last_seen = Some 3000000, first_seen = Some 1000000,
     active_at = Some 1000000, score = 0, short_id = Some 45\<rparr>"

text \<open>
  A group of another organization, whose project has the same slug and which has the
  same short id as the concrete group.
\<close>

definition example_namesake :: group where
  "example_namesake = \<lparr>id' = 11,
     project = \<lparr>project_id = 2, slug = ''project'', organization = 2, resolve_age = None\<rparr>,
     message = ''other'', status = UNRESOLVED, times_seen = Some 1, last_seen = Some 4000000,
     first_seen = Some 4000000, active_at = Some 4000000, score = 0, short_id = Some 44\<rparr>"

text \<open>A slug derivation and a backend with one team, for concrete evaluations.\<close>

definition example_slugify :: "team list \<Rightarrow> int \<Rightarrow> string \<Rightarrow> string" where
  "example_slugify ts org n = map (\<lambda>c. if is_space c then CHR ''-'' else lower_char c) n"

definition example_backend :: backend where
  "example_backend = \<lparr>teams = [\<lparr>team_id = 1, team_name = ''Ops'', team_slug = ''ops'',
                                  team_organization = 1\<rparr>],
     organization_members = [(5, 1) \<mapsto> 3], member_teams = [], audit_log = [],
     team_created = []\<rparr>"

section \<open>Properties of the grammar\<close>

lemma is_sep_not_alnum: "is_sep c \<Longrightarrow> \<not> is_alnum c"
  by (auto simp: is_sep_def is_alnum_def is_space_def is_upper_def is_lower_def is_digit_def)

lemma LF_not_alnum: "\<not> is_alnum LF"
  by (simp add: LF_def is_alnum_def is_upper_def is_lower_def is_digit_def)

lemma LF_is_space: "is_space LF"
  by (simp add: LF_def is_space_def)

lemma re_tail_Some:
  "re_tail cs = Some t \<longleftrightarrow> t \<noteq> [] \<and> list_all is_alnum t \<and> (cs = t \<or> cs = t @ [LF])"
proof
  assume h: "re_tail cs = Some t"
  then have t: "t = takeWhile is_alnum cs" and ne: "t \<noteq> []"
    and r: "dropWhile is_alnum cs = [] \<or> dropWhile is_alnum cs = [LF]"
    by (auto simp: re_tail_def Let_def split: if_splits)
  have "cs = t @ dropWhile is_alnum cs" using t by simp
  with r have "cs = t \<or> cs = t @ [LF]" by (metis append_Nil2)
  moreover have "list_all is_alnum t" using t by (simp add: list_all_iff) (meson set_takeWhileD)
  ultimately show "t \<noteq> [] \<and> list_all is_alnum t \<and> (cs = t \<or> cs = t @ [LF])" using ne by simp
next
  assume h: "t \<noteq> [] \<and> list_all is_alnum t \<and> (cs = t \<or> cs = t @ [LF])"
  then have a: "\<forall>x\<in>set t. is_alnum x" by (simp add: list_all_iff)
  from h show "re_tail cs = Some t"
  proof (elim conjE disjE)
    assume c: "cs = t" and ne: "t \<noteq> []"
    have tw: "takeWhile is_alnum cs = t" using a c by (simp add: takeWhile_eq_all_conv)
    have dw: "dropWhile is_alnum cs = []" using a c by simp
    show ?thesis using ne by (simp only: re_tail_def Let_def tw dw) simp
  next
    assume c: "cs = t @ [LF]" and ne: "t \<noteq> []"
    have tw: "takeWhile is_alnum cs = t" using a c LF_not_alnum by (simp add: takeWhile_append2)
    have dw: "dropWhile is_alnum cs = [LF]" using a c LF_not_alnum by (simp add: dropWhile_append2)
    show ?thesis using ne by (simp only: re_tail_def Let_def tw dw) simp
  qed
qed

lemma re_tail_after_sep:
  assumes "is_sep c" "t \<noteq> []"
  shows "re_tail (p @ c # t @ r) = None"
proof (cases "re_tail (p @ c # t @ r)")
  case None then show ?thesis .
next
  case (Some u)
  then have al: "list_all is_alnum u" and cs: "p @ c # t @ r = u \<or> p @ c # t @ r = u @ [LF]"
    by (simp_all add: re_tail_Some)
  have nc: "\<not> is_alnum c" using assms(1) by (rule is_sep_not_alnum)
  from cs show ?thesis
  proof
    assume "p @ c # t @ r = u"
    then have "c \<in> set u" by auto
    with al nc show ?thesis by (simp add: list_all_iff)
  next
    assume e: "p @ c # t @ r = u @ [LF]"
    have "t @ r \<noteq> []" using assms(2) by simp
    then have "butlast (p @ c # t @ r) = p @ c # butlast (t @ r)"
      by (simp add: butlast_append)
    with e have "u = p @ c # butlast (t @ r)" by (metis butlast_snoc)
    then have "c \<in> set u" by simp
    with al nc show ?thesis by (simp add: list_all_iff)
  qed
qed


lemma short_id_re_complete:
  assumes "is_sep c" "t \<noteq> []" "list_all is_alnum t" "r = [] \<or> r = [LF]" "LF \<notin> set p"
  shows "short_id_re (p @ c # t @ r) = Some (p, t)"
  using assms(5)
proof (induction p)
  case Nil
  have "re_tail (t @ r) = Some t" using assms(2,3,4) by (auto simp: re_tail_Some)
  then show ?case using assms(1) by simp
next
  case (Cons a p)
  have "re_tail (p @ c # t @ r) = None" using assms(1,2) by (rule re_tail_after_sep)
  moreover have "a \<noteq> LF" using Cons.prems by auto
  moreover have "short_id_re (p @ c # t @ r) = Some (p, t)" using Cons by simp
  ultimately show ?case by simp
qed


lemma py_strip_hd: "py_strip s \<noteq> [] \<Longrightarrow> \<not> is_space (hd (py_strip s))"
proof -
  assume ne: "py_strip s \<noteq> []"
  let ?d = "dropWhile is_space s"
  have "?d = rev (takeWhile is_space (rev ?d) @ dropWhile is_space (rev ?d))"
    by (simp only: takeWhile_dropWhile_id rev_rev_ident)
  also have "\<dots> = rev (dropWhile is_space (rev ?d)) @ rev (takeWhile is_space (rev ?d))"
    by (rule rev_append)
  finally have split: "?d = py_strip s @ rev (takeWhile is_space (rev ?d))"
    by (simp only: py_strip_def)
  then have "?d \<noteq> []" using ne by (metis append_is_Nil_conv)
  then have "\<not> is_space (hd ?d)" by (rule hd_dropWhile)
  moreover have "hd ?d = hd (py_strip s)" using split ne by (metis hd_append2)
  ultimately show ?thesis by simp
qed


lemma lower_upper_char: "\<not> is_upper c \<Longrightarrow> lower_char (upper_char c) = c"
proof (cases "is_lower c")
  case False
  assume "\<not> is_upper c"
  with False show ?thesis by (simp add: lower_char_def upper_char_def)
next
  case True
  let ?n = "of_char c :: nat"
  from True have r: "97 \<le> ?n" "?n \<le> 122" by (simp_all add: is_lower_def)
  have u: "upper_char c = char_of (?n - 32)" using True by (simp add: upper_char_def)
  have b: "65 \<le> ?n - 32 \<and> ?n - 32 \<le> 90 \<and> ?n - 32 < 256" using r by arith
  then have m: "(of_char (char_of (?n - 32) :: char) :: nat) = ?n - 32" by (simp add: of_char_of)
  have up: "is_upper (upper_char c)" unfolding u is_upper_def m using b by simp
  have "lower_char (upper_char c) = char_of ((?n - 32) + 32)"
    unfolding lower_char_def using up unfolding u m by simp
  also have "\<dots> = char_of ?n" using r by simp
  also have "\<dots> = c" by simp
  finally show ?thesis .
qed

lemma upper_char_space: "is_space (upper_char c) = is_space c"
proof (cases "is_lower c")
  case False
  then show ?thesis by (simp add: upper_char_def)
next
  case True
  let ?n = "of_char c :: nat"
  from True have r: "97 \<le> ?n" "?n \<le> 122" by (simp_all add: is_lower_def)
  have u: "upper_char c = char_of (?n - 32)" using True by (simp add: upper_char_def)
  have b: "65 \<le> ?n - 32 \<and> ?n - 32 \<le> 90 \<and> ?n - 32 < 256" using r by arith
  then have m: "(of_char (upper_char c) :: nat) = ?n - 32" unfolding u by (simp add: of_char_of)
  have "\<not> is_space c" using r by (auto simp: is_space_def)
  moreover have "\<not> is_space (upper_char c)"
  proof
    assume "is_space (upper_char c)"
    then have "(of_char (upper_char c) :: nat) \<in> {32, 9, 10, 11, 12, 13}"
      by (auto simp: is_space_def)
    with m b show False by auto
  qed
  ultimately show ?thesis by simp
qed

lemma lower_upper: "list_all (\<lambda>c. \<not> is_upper c) s \<Longrightarrow> lower (upper s) = s"
  by (induction s) (simp_all add: lower_def upper_def lower_upper_char)

lemma py_strip_id:
  assumes "s \<noteq> []" "\<not> is_space (hd s)" "\<not> is_space (last s)"
  shows "py_strip s = s"
proof -
  have "dropWhile is_space s = s" using assms(1,2) by (cases s) simp_all
  moreover have "dropWhile is_space (rev s) = rev s"
    using assms(1,3) by (cases "rev s") (simp_all add: last_rev[symmetric] hd_rev)
  ultimately show ?thesis by (simp add: py_strip_def)
qed


lemma parse_short_id_Some:
  "parse_short_id d m s = Some (sl, n) \<longleftrightarrow>
     (\<exists>p t. short_id_re (py_strip s) = Some (p, t) \<and> sl = lower p \<and> d t = Some n \<and> n \<le> m)"
  by (auto simp: parse_short_id_def Let_def split: option.splits if_splits)

text \<open>
  Claim C5. A token that matches the grammar and whose trailing segment decodes to a
  value strictly greater than the field's maximum makes \<open>parse_short_id\<close> return
  \<open>None\<close> ("no match"), the very result it gives for any token \<open>u\<close> that does not
  match the grammar. The function has no error result: the decoder's
  \<^verbatim>\<open>ValueError\<close> is caught and is the same \<open>None\<close>.
\<close>

theorem parse_short_id_overflow:
  assumes "short_id_re (py_strip s) = Some (p, t)"
    and "base32_decode t = Some n"
    and "max_id < n"
    and "short_id_re (py_strip u) = None"
  shows "parse_short_id base32_decode max_id s = None
    \<and> parse_short_id base32_decode max_id s = parse_short_id base32_decode max_id u"
  using assms by (simp add: parse_short_id_def)

text \<open>
  An instance: thirteen digits \<open>Z\<close> decode to \<open>2^65 - 1\<close>, beyond the largest signed
  64-bit value.
\<close>

theorem parse_short_id_overflow_witness:
  "parse_short_id example_decode 9223372036854775807 ''PROJECT-ZZZZZZZZZZZZZ'' = None
    \<and> parse_short_id example_decode 9223372036854775807 ''PROJECT-ZZZZZZZZZZZZZ''
        = parse_short_id example_decode 9223372036854775807 ''PROJECT''"
proof -
  have a: "short_id_re (py_strip ''PROJECT-ZZZZZZZZZZZZZ'') = Some (''PROJECT'', ''ZZZZZZZZZZZZZ'')"
    by code_simp
  have b: "example_decode ''ZZZZZZZZZZZZZ'' = Some 36893488147419103231"
    by code_simp
  have c: "(9223372036854775807::int) < 36893488147419103231" by simp
  have d: "short_id_re (py_strip ''PROJECT'') = None" by code_simp
  show ?thesis
    using parse_short_id_overflow [where base32_decode = example_decode, OF a b c d] .
qed



lemma lower_no_upper: "list_all (\<lambda>c. \<not> is_upper c) (lower p)"
proof -
  have "\<not> is_upper (lower_char c)" for c
  proof (cases "is_upper c")
    case False then show ?thesis by (simp add: lower_char_def)
  next
    case True
    let ?n = "of_char c :: nat"
    from True have r: "65 \<le> ?n" "?n \<le> 90" by (simp_all add: is_upper_def)
    then have "(of_char (char_of (?n + 32) :: char) :: nat) = ?n + 32" by (simp add: of_char_of)
    then show ?thesis using True r by (simp add: lower_char_def is_upper_def)
  qed
  then show ?thesis by (simp add: lower_def list_all_iff)
qed

text \<open>
  Claim C7. For an input that matches the grammar with groups \<open>(p, t)\<close> and whose
  token decodes in range, \<open>parse_short_id\<close> returns the slug lower-cased, whatever
  the case of the input, with the decoded number; in particular
  \<^verbatim>\<open>parse_short_id("PROJECT-1")\<close> is \<^verbatim>\<open>("project", 1)\<close> when the digit
  \<open>1\<close> decodes to 1.
\<close>

theorem parse_short_id_lowercases_slug:
  assumes "short_id_re (py_strip s) = Some (p, t)"
    and "base32_decode t = Some n"
    and "n \<le> max_id"
  shows "parse_short_id base32_decode max_id s = Some (lower p, n)
    \<and> list_all (\<lambda>c. \<not> is_upper c) (lower p)
    \<and> (s = ''PROJECT-1'' \<and> n = 1 \<longrightarrow>
          parse_short_id base32_decode max_id ''PROJECT-1'' = Some (''project'', 1))"
proof -
  have a: "parse_short_id base32_decode max_id s = Some (lower p, n)"
    using assms by (simp add: parse_short_id_def)
  have "short_id_re (py_strip ''PROJECT-1'') = Some (''PROJECT'', ''1'')" by code_simp
  moreover have "lower ''PROJECT'' = ''project''" by code_simp
  ultimately have "s = ''PROJECT-1'' \<and> n = 1 \<longrightarrow>
      parse_short_id base32_decode max_id ''PROJECT-1'' = Some (''project'', 1)"
    using assms a by auto
  with a lower_no_upper show ?thesis by simp
qed

text \<open>The instance of the claim, with the example decoder.\<close>

theorem parse_short_id_lowercases_slug_witness:
  "parse_short_id example_decode 9223372036854775807 ''PROJECT-1'' = Some (''project'', 1)"
proof -
  have a: "short_id_re (py_strip ''PROJECT-1'') = Some (''PROJECT'', ''1'')" by code_simp
  have b: "example_decode ''1'' = Some 1" by code_simp
  have c: "(1::int) \<le> 9223372036854775807" by simp
  have l: "lower ''PROJECT'' = ''project''" by code_simp
  show ?thesis
    using parse_short_id_lowercases_slug [where base32_decode = example_decode, OF a b c] l
    by simp
qed

section \<open>Status resolution\<close>

text \<open>
  Claim C1, as stated, fails: a group whose stored status is Ignored and that has no
  snooze record stays Ignored; \<^verbatim>\<open>except GroupSnooze.DoesNotExist: pass\<close> leaves the
  status as it is.
\<close>

theorem get_status_ignored_counterexample:
  "get_status 2000000 (None :: unit option) (\<lambda>s g. True)
     \<lparr>id' = 7, project = \<lparr>project_id = 1, slug = ''project'', organization = 1, resolve_age = None\<rparr>,
      message = ''boom'', status = IGNORED, times_seen = Some 3, last_seen = Some 1000000,
      first_seen = Some 1000000, active_at = Some 1000000, score = 0, short_id = Some 44\<rparr>
   = Inr IGNORED"
  by (simp add: get_status_def)

text \<open>
  Claim C1, amended. For a group whose stored status is Ignored, \<open>get_status\<close>
  consults the snooze record: a snooze that exists and is no longer valid overrides the
  status to Unresolved, which is then subject to the auto-resolve rule; with no snooze
  record, or with a snooze that is still valid, the status stays Ignored.
\<close>

theorem get_status_ignored:
  assumes "status g = IGNORED"
  shows "get_status now snooze is_valid g =
     (case snooze of
        None \<Rightarrow> Inr IGNORED
      | Some sn \<Rightarrow>
          if is_valid sn g then Inr IGNORED
          else (case is_over_resolve_age now g of
                  Inl e \<Rightarrow> Inl e
                | Inr over \<Rightarrow> Inr (if over then RESOLVED else UNRESOLVED)))"
  using assms by (simp add: get_status_def Let_def split: option.splits sum.splits)

text \<open>The three cases on the concrete group, whose stored status is Ignored.\<close>

theorem get_status_ignored_witness:
  "get_status 2000000 (Some ()) (\<lambda>sn g. False) example_group = Inr UNRESOLVED
   \<and> get_status 2000000 (Some ()) (\<lambda>sn g. True) example_group = Inr IGNORED
   \<and> get_status 2000000 (None :: unit option) (\<lambda>sn g. True) example_group = Inr IGNORED"
proof -
  have st: "status example_group = IGNORED" by (simp add: example_group_def)
  have o: "is_over_resolve_age 2000000 example_group = Inr False"
    by (simp add: is_over_resolve_age_def example_group_def example_project_def hours_def)
  show ?thesis
    using get_status_ignored [OF st, where now = 2000000 and snooze = "Some ()"
          and is_valid = "\<lambda>sn g. False"]
      get_status_ignored [OF st, where now = 2000000 and snooze = "Some ()"
          and is_valid = "\<lambda>sn g. True"]
      get_status_ignored [OF st, where now = 2000000 and snooze = "None :: unit option"
          and is_valid = "\<lambda>sn g. True"] o
    by simp
qed

text \<open>
  Claim C2. When the status after the snooze step is Unresolved (stored Unresolved, or
  stored Ignored with a snooze that is no longer valid), \<open>get_status\<close> returns Resolved
  exactly when the project has an auto-resolve age configured and the time since
  \<open>last_seen\<close> exceeds that many hours. An age is configured when the option is set to
  a non-zero number: \<^verbatim>\<open>not resolve_age\<close> holds for 0 as for an unset option.
  With no age configured \<open>is_over_resolve_age\<close> is false and the group stays
  Unresolved, whatever \<open>last_seen\<close> is.
\<close>

theorem get_status_auto_resolve:
  assumes "status g = UNRESOLVED
     \<or> (status g = IGNORED \<and> (\<exists>sn. snooze = Some sn \<and> \<not> is_valid sn g))"
  shows "(get_status now snooze is_valid g = Inr RESOLVED \<longleftrightarrow>
            (\<exists>age t. resolve_age (project g) = Some age \<and> age \<noteq> 0
               \<and> last_seen g = Some t \<and> now - t > hours age))
       \<and> (resolve_age (project g) = None \<longrightarrow>
            is_over_resolve_age now g = Inr False
            \<and> get_status now snooze is_valid g = Inr UNRESOLVED)"
  using assms
  by (auto simp: get_status_def is_over_resolve_age_def Let_def split: option.splits sum.splits)

text \<open>A group last seen 25 hours before, with an age of 24 hours and with none.\<close>

theorem get_status_auto_resolve_witness:
  "get_status 90000000000 (None :: unit option) (\<lambda>sn g. True)
      (example_group\<lparr>status := UNRESOLVED\<rparr>) = Inr RESOLVED
   \<and> get_status 90000000000 (None :: unit option) (\<lambda>sn g. True)
      (example_group\<lparr>status := UNRESOLVED, project := example_project\<lparr>resolve_age := None\<rparr>\<rparr>)
       = Inr UNRESOLVED"
proof -
  let ?g = "example_group\<lparr>status := UNRESOLVED\<rparr>"
  let ?h = "example_group\<lparr>status := UNRESOLVED, project := example_project\<lparr>resolve_age := None\<rparr>\<rparr>"
  have a: "status ?g = UNRESOLVED
     \<or> (status ?g = IGNORED \<and> (\<exists>sn. (None :: unit option) = Some sn \<and> \<not> (\<lambda>sn g. True) sn ?g))"
    by simp
  have b: "status ?h = UNRESOLVED
     \<or> (status ?h = IGNORED \<and> (\<exists>sn. (None :: unit option) = Some sn \<and> \<not> (\<lambda>sn g. True) sn ?h))"
    by simp
  have c: "\<exists>age t. resolve_age (project ?g) = Some age \<and> age \<noteq> 0
               \<and> last_seen ?g = Some t \<and> 90000000000 - t > hours age"
    by (simp add: example_group_def example_project_def hours_def)
  have d: "resolve_age (project ?h) = None" by simp
  show ?thesis
    using get_status_auto_resolve [OF a, where now = 90000000000]
      get_status_auto_resolve [OF b, where now = 90000000000] c d
    by blast
qed

section \<open>Score\<close>

text \<open>
  Claim C8, as stated, fails in its last part: two values of \<open>last_seen\<close> within the
  same second have the same score, since \<^verbatim>\<open>strftime('%s')\<close> drops the
  microseconds. Both scores are computed from the same arguments, so this does not
  depend on how the floating-point operations round.
\<close>

theorem calculate_score_counterexample:
  "(1000000::int) < 1000001 \<and> \<not> calculate_score (Some 5) 1000000 < calculate_score (Some 5) 1000001"
  by (simp add: calculate_score_def unix_seconds_def)

text \<open>
  Claim C8, amended. The score is \<open>ln (max times_seen 1) * 600 + unix_seconds last_seen\<close>;
  for a fixed \<open>last_seen\<close> it orders 100, 10 and 1 occurrences strictly; for fixed
  \<open>times_seen\<close> it is strictly greater for a \<open>last_seen\<close> in a later whole second,
  and never smaller for a later \<open>last_seen\<close>. (Over the reals.)
\<close>

theorem calculate_score_monotone:
  "calculate_score (Some n) t = ln (real (max n 1)) * 600 + real_of_int (unix_seconds t)
   \<and> calculate_score (Some 100) t > calculate_score (Some 10) t
   \<and> calculate_score (Some 10) t > calculate_score (Some 1) t
   \<and> (unix_seconds earlier < unix_seconds later \<longrightarrow>
        calculate_score ts later > calculate_score ts earlier)
   \<and> (earlier \<le> later \<longrightarrow> calculate_score ts later \<ge> calculate_score ts earlier)"
proof -
  have a: "calculate_score (Some n) t = ln (real (max n 1)) * 600 + real_of_int (unix_seconds t)"
    by (cases "n = 0") (simp_all add: calculate_score_def max_def)
  have "ln (10::real) < ln 100" by (subst ln_less_cancel_iff) simp_all
  then have b: "calculate_score (Some 100) t > calculate_score (Some 10) t"
    by (simp add: calculate_score_def)
  have "ln (1::real) < ln 10" by (subst ln_less_cancel_iff) simp_all
  then have c: "calculate_score (Some 10) t > calculate_score (Some 1) t"
    by (simp add: calculate_score_def)
  have d: "unix_seconds earlier < unix_seconds later \<longrightarrow>
        calculate_score ts later > calculate_score ts earlier"
    by (simp add: calculate_score_def)
  have "earlier \<le> later \<Longrightarrow> unix_seconds earlier \<le> unix_seconds later"
    by (simp add: unix_seconds_def zdiv_mono1)
  then have e: "earlier \<le> later \<longrightarrow> calculate_score ts later \<ge> calculate_score ts earlier"
    by (simp add: calculate_score_def)
  from a b c d e show ?thesis by blast
qed


text \<open>One second apart, and one microsecond apart.\<close>

theorem calculate_score_monotone_witness:
  "unix_seconds 1000000 < unix_seconds 2000000
   \<and> calculate_score (Some 3) 1000000 < calculate_score (Some 3) 2000000
   \<and> calculate_score (Some 3) 1000000 \<le> calculate_score (Some 3) 1000001"
proof -
  have a: "unix_seconds 1000000 < unix_seconds 2000000" by (simp add: unix_seconds_def)
  have b: "(1000000::int) \<le> 1000001" by simp
  show ?thesis
    using calculate_score_monotone
        [where earlier = 1000000 and later = 2000000 and ts = "Some 3"]
      calculate_score_monotone
        [where earlier = 1000000 and later = 1000001 and ts = "Some 3"] a b
    by blast
qed

section \<open>Save\<close>

lemma splitlines_from_first:
  "cur \<noteq> [] \<or> s \<noteq> [] \<Longrightarrow> \<exists>rest. splitlines_from cur s = (rev cur @ first_line s) # rest"
proof (induction s arbitrary: cur)
  case Nil
  then show ?case by (simp add: first_line_def)
next
  case (Cons c cs)
  show ?case
  proof (cases "c = CR")
    case True
    then have fl: "first_line (c # cs) = []" by (simp add: first_line_def)
    show ?thesis
    proof (cases cs)
      case Nil
      then show ?thesis using True fl by simp
    next
      case (Cons d ds)
      then show ?thesis using True fl by simp
    qed
  next
    case notCR: False
    show ?thesis
    proof (cases "c = LF")
      case True
      then have fl: "first_line (c # cs) = []" by (simp add: first_line_def)
      have "CR \<noteq> LF" by (simp add: CR_def LF_def)
      then show ?thesis using True fl by simp
    next
      case False
      have "\<exists>rest. splitlines_from (c # cur) cs = (rev (c # cur) @ first_line cs) # rest"
        by (rule Cons.IH) simp
      moreover have "first_line (c # cs) = c # first_line cs"
        using False notCR by (simp add: first_line_def)
      moreover have "splitlines_from cur (c # cs) = splitlines_from (c # cur) cs"
        using False notCR by simp
      ultimately show ?thesis by simp
    qed
  qed
qed

lemma splitlines_first:
  "s \<noteq> [] \<Longrightarrow> \<exists>rest. splitlines s = first_line s # rest"
  using splitlines_from_first [of "[]" s] by (simp add: splitlines_def)

text \<open>
  Claim C4. \<open>save\<close> never fails, and on every call, whatever the state of the
  instance: an unset \<open>last_seen\<close> becomes the current time, an unset \<open>first_seen\<close>
  becomes \<open>last_seen\<close>, an unset \<open>active_at\<close> becomes \<open>first_seen\<close>, the message
  becomes the first line of the stripped message cut to 255 characters, an unset
  \<open>times_seen\<close> becomes 1, and the score is the one computed from the saved
  \<open>times_seen\<close> and \<open>last_seen\<close>.
\<close>

theorem save_normalises:
  "(let ls = (case last_seen g of None \<Rightarrow> now | Some t \<Rightarrow> t);
        fs = (case first_seen g of None \<Rightarrow> ls | Some t \<Rightarrow> t);
        aa = (case active_at g of None \<Rightarrow> fs | Some t \<Rightarrow> t);
        msg = truncatechars (first_line (strip (message g))) 255;
        ts = (case times_seen g of None \<Rightarrow> 1 | Some n \<Rightarrow> n)
    in save now g = Inr (g\<lparr>last_seen := Some ls, first_seen := Some fs, active_at := Some aa,
                            message := msg, times_seen := Some ts,
                            score := calculate_score (Some ts) ls\<rparr>)
       \<and> length msg \<le> 255 \<and> LF \<notin> set msg \<and> CR \<notin> set msg)"
proof -
  let ?m = "strip (message g)"
  have nb: "LF \<notin> set (first_line s) \<and> CR \<notin> set (first_line s)" for s
    unfolding first_line_def by (metis (mono_tags, lifting) set_takeWhileD)
  have nbt: "LF \<notin> set (truncatechars (first_line ?m) 255) \<and> CR \<notin> set (truncatechars (first_line ?m) 255)"
    using nb [of ?m] unfolding truncatechars_def by (meson in_set_takeD)
  have len: "length (truncatechars (first_line ?m) 255) \<le> 255"
    by (simp add: truncatechars_def)
  have msg: "(if ?m \<noteq> []
               then (case splitlines ?m of
                       [] \<Rightarrow> Inl IndexError
                     | l # _ \<Rightarrow> Inr (truncatechars l 255))
               else Inr ?m) = Inr (truncatechars (first_line ?m) 255)"
  proof (cases "?m = []")
    case True
    then show ?thesis by (simp add: first_line_def truncatechars_def)
  next
    case False
    then obtain rest where "splitlines ?m = first_line ?m # rest"
      using splitlines_first by blast
    then show ?thesis using False by simp
  qed
  show ?thesis
    unfolding Let_def save_def msg using len nbt by simp
qed

text \<open>A new group with no timestamps, no counter and a two-line message.\<close>

theorem save_normalises_witness:
  "save 5000000 (example_group\<lparr>message := ''  boom'' @ [CR, LF] @ ''at line 2 '',
       last_seen := None, first_seen := None, active_at := None, times_seen := None\<rparr>)
   = Inr (example_group\<lparr>message := ''boom'', last_seen := Some 5000000,
       first_seen := Some 5000000, active_at := Some 5000000, times_seen := Some 1,
       score := calculate_score (Some 1) 5000000\<rparr>)"
proof -
  have m: "truncatechars (first_line (strip (''  boom'' @ [CR, LF] @ ''at line 2 ''))) 255 = ''boom''"
    by code_simp
  show ?thesis
    using save_normalises [where now = 5000000
        and g = "example_group\<lparr>message := ''  boom'' @ [CR, LF] @ ''at line 2 '',
          last_seen := None, first_seen := None, active_at := None, times_seen := None\<rparr>"]
    by (simp add: Let_def m [simplified] example_group_def)
qed

section \<open>Lookup\<close>

lemma space_is_sep: "is_space c \<Longrightarrow> is_sep c"
  by (simp add: is_sep_def)

lemma parse_short_id_qualified:
  assumes sl: "slug_ok sl" and ne: "t \<noteq> []" and al: "list_all is_alnum t"
  shows "parse_short_id d m (upper sl @ ''-'' @ t) =
     (case d t of None \<Rightarrow> None | Some n \<Rightarrow> if n > m then None else Some (sl, n))"
proof -
  let ?s = "upper sl @ CHR ''-'' # t"
  have nsp: "\<forall>c\<in>set sl. \<not> is_space c" and nup: "list_all (\<lambda>c. \<not> is_upper c) sl"
    using sl by (simp_all add: slug_ok_def list_all_iff)
  have usp: "\<forall>c\<in>set (upper sl). \<not> is_space c"
    using nsp by (simp add: upper_def upper_char_space)
  have nl: "LF \<notin> set (upper sl)" using usp LF_is_space by blast
  have sep: "is_sep (CHR ''-'')" by (simp add: is_sep_def)
  have "\<not> is_space (CHR ''-'')" by (simp add: is_space_def)
  then have h: "\<not> is_space (hd ?s)" using usp by (cases "upper sl") simp_all
  have "is_alnum (last t)" using ne al by (simp add: list_all_iff)
  then have "\<not> is_space (last t)" using is_sep_not_alnum space_is_sep by blast
  then have l: "\<not> is_space (last ?s)" using ne by simp
  have st: "py_strip ?s = ?s" using h l by (intro py_strip_id) simp_all
  have "short_id_re (upper sl @ CHR ''-'' # t @ []) = Some (upper sl, t)"
    using sep ne al _ nl by (rule short_id_re_complete) simp
  then have re: "short_id_re (py_strip ?s) = Some (upper sl, t)" using st by simp
  have lu: "lower (upper sl) = sl" using nup by (rule lower_upper)
  show ?thesis using re lu by (simp add: parse_short_id_def split: option.splits)
qed

lemma filter_eq_singleton:
  "distinct rows \<Longrightarrow> r \<in> set rows \<Longrightarrow> filter (\<lambda>x. x = r) rows = [r]"
proof (induction rows)
  case Nil
  then show ?case by simp
next
  case (Cons a rows)
  show ?case
  proof (cases "a = r")
    case True
    then have "r \<notin> set rows" using Cons.prems(1) by simp
    then have "filter (\<lambda>x. x = r) rows = []" by (auto simp: filter_empty_conv)
    then show ?thesis using True by simp
  next
    case False
    then have "r \<in> set rows" using Cons.prems(2) by simp
    moreover have "distinct rows" using Cons.prems(1) by simp
    ultimately have "filter (\<lambda>x. x = r) rows = [r]" by (rule Cons.IH[rotated])
    then show ?thesis using False by simp
  qed
qed

lemma queryset_get_unique:
  assumes "r \<in> set rows" "cond r" "\<forall>x\<in>set rows. cond x \<longrightarrow> x = r" "distinct rows"
  shows "queryset_get cond rows = Inr r"
proof -
  have "filter cond rows = filter (\<lambda>x. x = r) rows"
    using assms(2,3) by (intro filter_cong) auto
  also have "\<dots> = [r]" using assms(4,1) by (rule filter_eq_singleton)
  finally show ?thesis by (simp add: queryset_get_def)
qed

lemma queryset_get_none:
  "(\<forall>x\<in>set rows. \<not> cond x) \<Longrightarrow> queryset_get cond rows = Inl DoesNotExist"
  by (simp add: queryset_get_def filter_empty_conv[THEN iffD2])

lemma queryset_get_Inr:
  "queryset_get cond rows = Inr r \<Longrightarrow> r \<in> set rows \<and> cond r"
proof -
  assume "queryset_get cond rows = Inr r"
  then have "filter cond rows = [r]"
    by (auto simp: queryset_get_def split: list.splits)
  then have "r \<in> set (filter cond rows)" by simp
  then show ?thesis by simp
qed


lemma create_for_group_Inr:
  assumes "create_for_group redirects a b = Inr redirects'"
  shows "redirects' = redirects @ [\<lparr>group_id = id' b, previous_group_id = id' a,
             previous_short_id = short_id a,
             previous_project_slug = Some (slug (project a))\<rparr>]"
    and "\<forall>x\<in>set redirects. previous_group_id x \<noteq> id' a"
    and "\<And>n. short_id a = Some n \<Longrightarrow> \<forall>x\<in>set redirects.
           \<not> (previous_short_id x = Some n \<and> previous_project_slug x = Some (slug (project a)))"
  using assms
  by (auto simp: create_for_group_def redirect_conflict_def Let_def list_ex_iff split: if_splits)

lemma redirect_ids_after_create:
  assumes c: "create_for_group redirects a b = Inr redirects'"
    and ps: "ps = ById (id' a) \<or> (\<exists>n. short_id a = Some n \<and> ps = ByShortId (slug (project a)) n)"
  shows "map group_id (filter (redirect_matches ps) redirects') = [id' b]"
proof -
  let ?r = "\<lparr>group_id = id' b, previous_group_id = id' a, previous_short_id = short_id a,
             previous_project_slug = Some (slug (project a))\<rparr>"
  have r: "redirects' = redirects @ [?r]" using c by (rule create_for_group_Inr(1))
  have old: "\<forall>x\<in>set redirects. \<not> redirect_matches ps x"
    using ps create_for_group_Inr(2)[OF c] create_for_group_Inr(3)[OF c] by auto
  have new: "redirect_matches ps ?r" using ps by auto
  have "filter (redirect_matches ps) redirects = []" using old by (simp add: filter_empty_conv)
  then show ?thesis using new r by simp
qed

lemma get_by_id:
  assumes "b \<in> set groups" "distinct (map id' groups)"
  shows "queryset_get (\<lambda>g. id' g = id' b) groups = Inr b"
proof (rule queryset_get_unique)
  show "b \<in> set groups" by fact
  show "id' b = id' b" by simp
  show "\<forall>x\<in>set groups. id' x = id' b \<longrightarrow> x = b"
    using assms by (meson distinct_map inj_onD)
  show "distinct groups" using assms(2) by (simp add: distinct_map)
qed


lemma lookup_params_id:
  "token_is_id tok i \<Longrightarrow> lookup_params d m tok = Inr (ById i)"
  by (cases tok) (auto simp: token_is_id_def)

lemma lookup_params_short_range:
  assumes "lookup_params d m tok = Inr (ByShortId sl n)"
  shows "n \<le> m"
proof (cases tok)
  case (IntId i)
  then show ?thesis using assms by simp
next
  case (StrId s)
  then have "parse_short_id d m s = Some (sl, n)"
    using assms by (auto split: if_splits option.splits)
  then show ?thesis by (auto simp: parse_short_id_Some)
qed

lemma bounded_get_in_range:
  "(case ps of ById i \<Rightarrow> i \<le> m | ByShortId sl n \<Rightarrow> n \<le> m) \<Longrightarrow>
     bounded_get m ps rows = queryset_get (group_matches ps) rows"
  by (cases ps) (simp_all add: bounded_get_def)

lemma redirected_lookup:
  assumes c: "create_for_group redirects a b = Inr redirects'"
    and alive: "b \<in> set groups"
    and ids: "distinct (map id' groups)"
    and ps: "ps = ById (id' a) \<or> (\<exists>n. short_id a = Some n \<and> ps = ByShortId (slug (project a)) n)"
    and lp: "lookup_params d m tok = Inr ps"
    and range: "case ps of ById i \<Rightarrow> i \<le> m | ByShortId sl n \<Rightarrow> n \<le> m"
    and miss: "\<forall>g\<in>set groups. \<not> group_matches ps g"
  shows "get_group_with_redirect d m groups redirects' tok = Inr (b, True)"
proof -
  have "queryset_get (group_matches ps) groups = Inl DoesNotExist"
    using miss by (rule queryset_get_none)
  then have direct: "bounded_get m ps groups = Inl DoesNotExist"
    using range by (simp add: bounded_get_in_range)
  have rids: "map group_id (filter (redirect_matches ps) redirects') = [id' b]"
    using c ps by (rule redirect_ids_after_create)
  have "queryset_get (\<lambda>g. id' g = id' b) groups = Inr b"
    using alive ids by (rule get_by_id)
  then have "queryset_get (\<lambda>g. id' g \<in> set [id' b]) groups = Inr b" by simp
  then have second:
    "queryset_get (\<lambda>g. id' g \<in> set (map group_id (filter (redirect_matches ps) redirects')))
       groups = Inr b"
    by (simp only: rids)
  show ?thesis
    by (simp only: get_group_with_redirect_def lp Let_def direct second sum.case simp_thms
        if_True)
qed

lemma qualified_not_isdigit: "\<not> isdigit (x @ ''-'' @ y)"
proof -
  have "\<not> is_digit (CHR ''-'')" by (simp add: is_digit_def)
  then show ?thesis by (simp add: isdigit_def)
qed

text \<open>
  Claim C3, as stated, fails in two places. The lookup by a qualified short id asks for
  the project slug and the short id only, not for the organization: when a stored group
  of another organization has the slug and the short id of the dead group, the lookup
  by the dead group's qualified short id returns that group, with \<open>was_redirected\<close>
  false, although the redirect to the survivor is recorded. And a lookup by an id above
  the field's maximum finds no group but fails with \<open>AssertionError\<close>, not with
  \<open>DoesNotExist\<close>.
\<close>

theorem redirect_lookup_counterexample:
  "create_for_group [] example_group example_survivor
     = Inr [\<lparr>group_id = 9, previous_group_id = 7, previous_short_id = Some 44,
              previous_project_slug = Some ''project''\<rparr>]
   \<and> example_survivor \<in> set [example_survivor, example_namesake]
   \<and> id' example_group \<notin> set (map id' [example_survivor, example_namesake])
   \<and> qualified_short_id example_encode example_group = Some ''PROJECT-1C''
   \<and> get_group_with_redirect example_decode 9223372036854775807
        [example_survivor, example_namesake]
        [\<lparr>group_id = 9, previous_group_id = 7, previous_short_id = Some 44,
          previous_project_slug = Some ''project''\<rparr>] (StrId ''PROJECT-1C'')
       = Inr (example_namesake, False)
   \<and> get_group_with_redirect example_decode 9223372036854775807
        [example_survivor, example_namesake]
        [\<lparr>group_id = 9, previous_group_id = 7, previous_short_id = Some 44,
          previous_project_slug = Some ''project''\<rparr>] (IntId 9223372036854775808)
       = Inl (FirstLookup, AssertionError)"
proof -
  have created: "create_for_group [] example_group example_survivor
     = Inr [\<lparr>group_id = 9, previous_group_id = 7, previous_short_id = Some 44,
              previous_project_slug = Some ''project''\<rparr>]"
    by (simp add: create_for_group_def redirect_conflict_def example_group_def
        example_survivor_def example_project_def)
  have dead: "id' example_group \<notin> set (map id' [example_survivor, example_namesake])"
    by (simp add: example_group_def example_survivor_def example_namesake_def)
  have q: "qualified_short_id example_encode example_group = Some ''PROJECT-1C''"
  proof -
    have "upper ''project'' @ ''-'' @ example_encode 44 = ''PROJECT-1C''" by code_simp
    then show ?thesis
      by (simp add: qualified_short_id_def example_group_def example_project_def)
  qed
  have nd: "\<not> isdigit ''PROJECT-1C''" by code_simp
  have p: "parse_short_id example_decode 9223372036854775807 ''PROJECT-1C''
      = Some (''project'', 44)" by code_simp
  have lp: "lookup_params example_decode 9223372036854775807 (StrId ''PROJECT-1C'')
      = Inr (ByShortId ''project'' 44)"
    using nd p by simp
  have bg: "bounded_get 9223372036854775807 (ByShortId ''project'' 44)
      [example_survivor, example_namesake] = Inr example_namesake"
    by (simp add: bounded_get_def queryset_get_def example_survivor_def example_namesake_def
        example_project_def)
  have short: "get_group_with_redirect example_decode 9223372036854775807
        [example_survivor, example_namesake]
        [\<lparr>group_id = 9, previous_group_id = 7, previous_short_id = Some 44,
          previous_project_slug = Some ''project''\<rparr>] (StrId ''PROJECT-1C'')
       = Inr (example_namesake, False)"
    by (simp only: get_group_with_redirect_def lp bg sum.case)
  have big: "get_group_with_redirect example_decode 9223372036854775807
        [example_survivor, example_namesake]
        [\<lparr>group_id = 9, previous_group_id = 7, previous_short_id = Some 44,
          previous_project_slug = Some ''project''\<rparr>] (IntId 9223372036854775808)
       = Inl (FirstLookup, AssertionError)"
    by (simp add: get_group_with_redirect_def bounded_get_def)
  show ?thesis using created dead q short big by simp
qed


text \<open>
  Claim C3, amended. Let \<open>create_for_group\<close> record a redirect from a group \<open>a\<close> to
  a stored group \<open>b\<close>, in a store whose ids are unique. When no stored group has the
  id of \<open>a\<close>, the lookup by that id (an integer or its digits, within the field's
  range) returns \<open>b\<close> with \<open>was_redirected\<close> true. When no stored group has the
  project slug and the short id of \<open>a\<close>, the lookup by the qualified short id of
  \<open>a\<close> returns \<open>b\<close> with \<open>was_redirected\<close> true. The lookup by the id of \<open>b\<close>
  returns \<open>b\<close> with \<open>was_redirected\<close> false. For any store and any token whose id
  is within the field's range, when neither the direct lookup nor the lookup through
  the redirects finds a group, the error is the \<open>DoesNotExist\<close> raised by the first
  lookup, not one of the second.
\<close>

theorem redirect_lookup:
  assumes created: "create_for_group redirects a b = Inr redirects'"
    and alive: "b \<in> set groups"
    and ids: "distinct (map id' groups)"
  shows "(token_is_id ta (id' a) \<and> id' a \<le> max_id \<and> (\<forall>g\<in>set groups. id' g \<noteq> id' a) \<longrightarrow>
        get_group_with_redirect base32_decode max_id groups redirects' ta = Inr (b, True))
     \<and> (short_id a = Some n \<and> codec_ok base32_decode base32_encode n \<and> n \<le> max_id
          \<and> slug_ok (slug (project a))
          \<and> (\<forall>g\<in>set groups. \<not> (slug (project g) = slug (project a) \<and> short_id g = Some n))
         \<longrightarrow> (\<exists>q. qualified_short_id base32_encode a = Some q
               \<and> get_group_with_redirect base32_decode max_id groups redirects' (StrId q)
                   = Inr (b, True)))
     \<and> (token_is_id tb (id' b) \<and> id' b \<le> max_id \<longrightarrow>
        get_group_with_redirect base32_decode max_id groups redirects' tb = Inr (b, False))
     \<and> (lookup_params base32_decode max_id tok = Inr ps
          \<and> (case ps of ById i \<Rightarrow> i \<le> max_id | ByShortId project_slug k \<Rightarrow> True)
          \<and> (\<forall>g\<in>set qs. \<not> group_matches ps g)
          \<and> (\<forall>g\<in>set qs. \<forall>r\<in>set rs. redirect_matches ps r \<longrightarrow> id' g \<noteq> group_id r)
         \<longrightarrow> get_group_with_redirect base32_decode max_id qs rs tok
               = Inl (FirstLookup, DoesNotExist))"
proof -
  have first: "token_is_id ta (id' a) \<and> id' a \<le> max_id \<and> (\<forall>g\<in>set groups. id' g \<noteq> id' a) \<longrightarrow>
        get_group_with_redirect base32_decode max_id groups redirects' ta = Inr (b, True)"
  proof (rule impI)
    assume h: "token_is_id ta (id' a) \<and> id' a \<le> max_id \<and> (\<forall>g\<in>set groups. id' g \<noteq> id' a)"
    show "get_group_with_redirect base32_decode max_id groups redirects' ta = Inr (b, True)"
      using created alive ids
    proof (rule redirected_lookup)
      show "ById (id' a) = ById (id' a) \<or>
         (\<exists>n. short_id a = Some n \<and> ById (id' a) = ByShortId (slug (project a)) n)" by simp
      show "lookup_params base32_decode max_id ta = Inr (ById (id' a))"
        using h by (simp add: lookup_params_id)
      show "case ById (id' a) of ById i \<Rightarrow> i \<le> max_id | ByShortId sl n \<Rightarrow> n \<le> max_id"
        using h by simp
      show "\<forall>g\<in>set groups. \<not> group_matches (ById (id' a)) g" using h by simp
    qed
  qed
  have second: "short_id a = Some n \<and> codec_ok base32_decode base32_encode n \<and> n \<le> max_id
          \<and> slug_ok (slug (project a))
          \<and> (\<forall>g\<in>set groups. \<not> (slug (project g) = slug (project a) \<and> short_id g = Some n))
         \<longrightarrow> (\<exists>q. qualified_short_id base32_encode a = Some q
               \<and> get_group_with_redirect base32_decode max_id groups redirects' (StrId q)
                   = Inr (b, True))"
  proof (rule impI)
    assume h: "short_id a = Some n \<and> codec_ok base32_decode base32_encode n \<and> n \<le> max_id
          \<and> slug_ok (slug (project a))
          \<and> (\<forall>g\<in>set groups. \<not> (slug (project g) = slug (project a) \<and> short_id g = Some n))"
    let ?q = "upper (slug (project a)) @ ''-'' @ base32_encode n"
    let ?ps = "ByShortId (slug (project a)) n"
    have q: "qualified_short_id base32_encode a = Some ?q"
      using h by (simp add: qualified_short_id_def)
    have "parse_short_id base32_decode max_id ?q
        = (case base32_decode (base32_encode n) of None \<Rightarrow> None
           | Some k \<Rightarrow> if k > max_id then None else Some (slug (project a), k))"
      using h by (intro parse_short_id_qualified) (simp_all add: codec_ok_def)
    then have "parse_short_id base32_decode max_id ?q = Some (slug (project a), n)"
      using h by (simp add: codec_ok_def)
    then have lp: "lookup_params base32_decode max_id (StrId ?q) = Inr ?ps"
      using qualified_not_isdigit [of "upper (slug (project a))" "base32_encode n"] by simp
    have "get_group_with_redirect base32_decode max_id groups redirects' (StrId ?q)
        = Inr (b, True)"
      using created alive ids _ lp
    proof (rule redirected_lookup)
      show "?ps = ById (id' a) \<or> (\<exists>k. short_id a = Some k \<and> ?ps = ByShortId (slug (project a)) k)"
        using h by simp
      show "case ?ps of ById i \<Rightarrow> i \<le> max_id | ByShortId sl k \<Rightarrow> k \<le> max_id"
        using h by simp
      show "\<forall>g\<in>set groups. \<not> group_matches ?ps g" using h by simp
    qed
    with q show "\<exists>q. qualified_short_id base32_encode a = Some q
               \<and> get_group_with_redirect base32_decode max_id groups redirects' (StrId q)
                   = Inr (b, True)" by blast
  qed
  have third: "token_is_id tb (id' b) \<and> id' b \<le> max_id \<longrightarrow>
        get_group_with_redirect base32_decode max_id groups redirects' tb = Inr (b, False)"
  proof (rule impI)
    assume h: "token_is_id tb (id' b) \<and> id' b \<le> max_id"
    then have lp: "lookup_params base32_decode max_id tb = Inr (ById (id' b))"
      by (simp add: lookup_params_id)
    have "queryset_get (\<lambda>g. id' g = id' b) groups = Inr b" using alive ids by (rule get_by_id)
    then have "queryset_get (group_matches (ById (id' b))) groups = Inr b"
      by (simp add: group_matches.simps [abs_def] cong: if_cong)
    then have bg: "bounded_get max_id (ById (id' b)) groups = Inr b"
      using h by (simp add: bounded_get_def)
    show "get_group_with_redirect base32_decode max_id groups redirects' tb = Inr (b, False)"
      by (simp only: get_group_with_redirect_def lp bg sum.case)
  qed
  have fourth: "lookup_params base32_decode max_id tok = Inr ps
          \<and> (case ps of ById i \<Rightarrow> i \<le> max_id | ByShortId project_slug k \<Rightarrow> True)
          \<and> (\<forall>g\<in>set qs. \<not> group_matches ps g)
          \<and> (\<forall>g\<in>set qs. \<forall>r\<in>set rs. redirect_matches ps r \<longrightarrow> id' g \<noteq> group_id r)
         \<longrightarrow> get_group_with_redirect base32_decode max_id qs rs tok
               = Inl (FirstLookup, DoesNotExist)"
  proof (intro impI, elim conjE)
    assume lp: "lookup_params base32_decode max_id tok = Inr ps"
      and rg: "case ps of ById i \<Rightarrow> i \<le> max_id | ByShortId project_slug k \<Rightarrow> True"
      and m1: "\<forall>g\<in>set qs. \<not> group_matches ps g"
      and m2: "\<forall>g\<in>set qs. \<forall>r\<in>set rs. redirect_matches ps r \<longrightarrow> id' g \<noteq> group_id r"
    have "case ps of ById i \<Rightarrow> i \<le> max_id | ByShortId sl k \<Rightarrow> k \<le> max_id"
    proof (cases ps)
      case (ById i)
      then show ?thesis using rg by simp
    next
      case (ByShortId sl k)
      then have "k \<le> max_id" using lp lookup_params_short_range by blast
      then show ?thesis using ByShortId by simp
    qed
    then have "bounded_get max_id ps qs = queryset_get (group_matches ps) qs"
      by (rule bounded_get_in_range)
    also have "\<dots> = Inl DoesNotExist" using m1 by (rule queryset_get_none)
    finally have d1: "bounded_get max_id ps qs = Inl DoesNotExist" .
    have "\<forall>g\<in>set qs. \<not> id' g \<in> set (map group_id (filter (redirect_matches ps) rs))"
      using m2 by auto
    then have d2: "queryset_get (\<lambda>g. id' g \<in> set (map group_id (filter (redirect_matches ps) rs))) qs
        = Inl DoesNotExist"
      by (rule queryset_get_none)
    show "get_group_with_redirect base32_decode max_id qs rs tok = Inl (FirstLookup, DoesNotExist)"
      by (simp only: get_group_with_redirect_def lp Let_def d1 d2 sum.case simp_thms if_True)
  qed
  from first second third fourth show ?thesis by blast
qed


text \<open>
  The group with id 7 and short id \<open>PROJECT-1C\<close> is merged into the group with id 9
  and deleted; no other group is stored.
\<close>

theorem redirect_lookup_witness:
  "get_group_with_redirect example_decode 9223372036854775807 [example_survivor]
      [\<lparr>group_id = 9, previous_group_id = 7, previous_short_id = Some 44,
        previous_project_slug = Some ''project''\<rparr>] (IntId 7) = Inr (example_survivor, True)
   \<and> get_group_with_redirect example_decode 9223372036854775807 [example_survivor]
      [\<lparr>group_id = 9, previous_group_id = 7, previous_short_id = Some 44,
        previous_project_slug = Some ''project''\<rparr>] (StrId ''7'') = Inr (example_survivor, True)
   \<and> get_group_with_redirect example_decode 9223372036854775807 [example_survivor]
      [\<lparr>group_id = 9, previous_group_id = 7, previous_short_id = Some 44,
        previous_project_slug = Some ''project''\<rparr>] (StrId ''PROJECT-1C'')
       = Inr (example_survivor, True)
   \<and> get_group_with_redirect example_decode 9223372036854775807 [example_survivor]
      [\<lparr>group_id = 9, previous_group_id = 7, previous_short_id = Some 44,
        previous_project_slug = Some ''project''\<rparr>] (IntId 9) = Inr (example_survivor, False)
   \<and> get_group_with_redirect example_decode 9223372036854775807 [example_survivor]
      [\<lparr>group_id = 9, previous_group_id = 7, previous_short_id = Some 44,
        previous_project_slug = Some ''project''\<rparr>] (IntId 8) = Inl (FirstLookup, DoesNotExist)"
proof -
  let ?r = "\<lparr>group_id = 9, previous_group_id = 7, previous_short_id = Some 44,
        previous_project_slug = Some ''project''\<rparr>"
  let ?m = "9223372036854775807 :: int"
  have created: "create_for_group [] example_group example_survivor = Inr [?r]"
    by (simp add: create_for_group_def redirect_conflict_def example_group_def
        example_survivor_def example_project_def)
  have alive: "example_survivor \<in> set [example_survivor]" by simp
  have ids: "distinct (map id' [example_survivor])" by simp
  note th = redirect_lookup [OF created alive ids, where base32_decode = example_decode
      and base32_encode = example_encode and max_id = ?m]
  have i9: "id' example_survivor = 9" and i7: "id' example_group = 7"
    by (simp_all add: example_survivor_def example_group_def)
  have d7: "isdigit ''7'' \<and> int_of_digits ''7'' = 7" by code_simp
  have h1: "token_is_id (IntId 7) (id' example_group) \<and> id' example_group \<le> ?m
      \<and> (\<forall>g\<in>set [example_survivor]. id' g \<noteq> id' example_group)"
    by (simp add: token_is_id_def i7 i9)
  have h1s: "token_is_id (StrId ''7'') (id' example_group) \<and> id' example_group \<le> ?m
      \<and> (\<forall>g\<in>set [example_survivor]. id' g \<noteq> id' example_group)"
    using d7 by (simp add: token_is_id_def i7 i9)
  have codec: "codec_ok example_decode example_encode 44" by code_simp
  have sl: "slug_ok (slug (project example_group))"
    unfolding example_group_def example_project_def by simp code_simp
  have h2: "short_id example_group = Some 44 \<and> codec_ok example_decode example_encode 44
      \<and> 44 \<le> ?m \<and> slug_ok (slug (project example_group))
      \<and> (\<forall>g\<in>set [example_survivor].
            \<not> (slug (project g) = slug (project example_group) \<and> short_id g = Some 44))"
    using codec sl by (simp add: example_group_def example_survivor_def)
  have q: "qualified_short_id example_encode example_group = Some ''PROJECT-1C''"
  proof -
    have "upper ''project'' @ ''-'' @ example_encode 44 = ''PROJECT-1C''" by code_simp
    then show ?thesis
      by (simp add: qualified_short_id_def example_group_def example_project_def)
  qed
  have h3: "token_is_id (IntId 9) (id' example_survivor) \<and> id' example_survivor \<le> ?m"
    by (simp add: token_is_id_def i9)
  have h4: "lookup_params example_decode ?m (IntId 8) = Inr (ById 8)
      \<and> (case ById 8 of ById i \<Rightarrow> i \<le> ?m | ByShortId project_slug k \<Rightarrow> True)
      \<and> (\<forall>g\<in>set [example_survivor]. \<not> group_matches (ById 8) g)
      \<and> (\<forall>g\<in>set [example_survivor]. \<forall>r\<in>set [?r]. redirect_matches (ById 8) r \<longrightarrow> id' g \<noteq> group_id r)"
    by (simp add: i9)
  have c1: "get_group_with_redirect example_decode ?m [example_survivor] [?r] (IntId 7)
      = Inr (example_survivor, True)"
    using th [where ta = "IntId 7", THEN conjunct1] h1 by blast
  have c1s: "get_group_with_redirect example_decode ?m [example_survivor] [?r] (StrId ''7'')
      = Inr (example_survivor, True)"
    using th [where ta = "StrId ''7''", THEN conjunct1] h1s by blast
  have "\<exists>q. qualified_short_id example_encode example_group = Some q
      \<and> get_group_with_redirect example_decode ?m [example_survivor] [?r] (StrId q)
          = Inr (example_survivor, True)"
    using th [where n = 44, THEN conjunct2, THEN conjunct1] h2 by blast
  then have c2: "get_group_with_redirect example_decode ?m [example_survivor] [?r]
      (StrId ''PROJECT-1C'') = Inr (example_survivor, True)"
    using q by auto
  have c3: "get_group_with_redirect example_decode ?m [example_survivor] [?r] (IntId 9)
      = Inr (example_survivor, False)"
    using th [where tb = "IntId 9", THEN conjunct2, THEN conjunct2, THEN conjunct1] h3 by blast
  have c4: "get_group_with_redirect example_decode ?m [example_survivor] [?r] (IntId 8)
      = Inl (FirstLookup, DoesNotExist)"
    using th [where tok = "IntId 8" and ps = "ById 8" and qs = "[example_survivor]"
        and rs = "[?r]", THEN conjunct2, THEN conjunct2, THEN conjunct2] h4 by blast
  from c1 c1s c2 c3 c4 show ?thesis by simp
qed

lemma excluded_member:
  "List.member [PENDING_DELETION, DELETION_IN_PROGRESS, PENDING_MERGE] st \<longleftrightarrow>
     st = PENDING_DELETION \<or> st = DELETION_IN_PROGRESS \<or> st = PENDING_MERGE"
  by auto

text \<open>
  Claim C9. A group returned by \<open>by_qualified_short_id\<close> is a stored group whose
  status is none of PendingDeletion, DeletionInProgress and PendingMerge. And for a
  stored group \<open>g\<close> in one of these states, the lookup by its own qualified short id in
  its own organization fails with \<open>DoesNotExist\<close>, in a store where the organization,
  the project slug and the short id together identify a group.
\<close>

theorem by_qualified_short_id_excludes:
  "(by_qualified_short_id base32_decode max_id groups org tok = Inr r \<longrightarrow>
      r \<in> set groups \<and> status r \<noteq> PENDING_DELETION \<and> status r \<noteq> DELETION_IN_PROGRESS
      \<and> status r \<noteq> PENDING_MERGE)
   \<and> (g \<in> set groups
        \<and> (status g = PENDING_DELETION \<or> status g = DELETION_IN_PROGRESS
            \<or> status g = PENDING_MERGE)
        \<and> short_id g = Some n \<and> qualified_short_id base32_encode g = Some q
        \<and> codec_ok base32_decode base32_encode n \<and> slug_ok (slug (project g))
        \<and> (\<forall>h\<in>set groups. organization (project h) = organization (project g)
              \<and> slug (project h) = slug (project g) \<and> short_id h = Some n \<longrightarrow> h = g)
      \<longrightarrow> by_qualified_short_id base32_decode max_id groups (organization (project g)) q
            = Inl DoesNotExist)"
proof -
  have first: "by_qualified_short_id base32_decode max_id groups org tok = Inr r \<longrightarrow>
      r \<in> set groups \<and> status r \<noteq> PENDING_DELETION \<and> status r \<noteq> DELETION_IN_PROGRESS
      \<and> status r \<noteq> PENDING_MERGE"
  proof (rule impI)
    let ?live = "filter (\<lambda>g. \<not> List.member
                   [PENDING_DELETION, DELETION_IN_PROGRESS, PENDING_MERGE] (status g)) groups"
    assume "by_qualified_short_id base32_decode max_id groups org tok = Inr r"
    then obtain sl k where
      "queryset_get (\<lambda>g. organization (project g) = org \<and> slug (project g) = sl
          \<and> short_id g = Some k) ?live = Inr r"
      by (cases "parse_short_id base32_decode max_id tok")
        (auto simp: by_qualified_short_id_def)
    then have "r \<in> set ?live" by (rule queryset_get_Inr [THEN conjunct1])
    then show "r \<in> set groups \<and> status r \<noteq> PENDING_DELETION
        \<and> status r \<noteq> DELETION_IN_PROGRESS \<and> status r \<noteq> PENDING_MERGE"
      by (simp add: excluded_member)
  qed
  have second: "g \<in> set groups
        \<and> (status g = PENDING_DELETION \<or> status g = DELETION_IN_PROGRESS
            \<or> status g = PENDING_MERGE)
        \<and> short_id g = Some n \<and> qualified_short_id base32_encode g = Some q
        \<and> codec_ok base32_decode base32_encode n \<and> slug_ok (slug (project g))
        \<and> (\<forall>h\<in>set groups. organization (project h) = organization (project g)
              \<and> slug (project h) = slug (project g) \<and> short_id h = Some n \<longrightarrow> h = g)
      \<longrightarrow> by_qualified_short_id base32_decode max_id groups (organization (project g)) q
            = Inl DoesNotExist"
  proof (rule impI)
    let ?live = "filter (\<lambda>g. \<not> List.member
                   [PENDING_DELETION, DELETION_IN_PROGRESS, PENDING_MERGE] (status g)) groups"
    assume h: "g \<in> set groups
          \<and> (status g = PENDING_DELETION \<or> status g = DELETION_IN_PROGRESS
              \<or> status g = PENDING_MERGE)
          \<and> short_id g = Some n \<and> qualified_short_id base32_encode g = Some q
          \<and> codec_ok base32_decode base32_encode n \<and> slug_ok (slug (project g))
          \<and> (\<forall>h\<in>set groups. organization (project h) = organization (project g)
                \<and> slug (project h) = slug (project g) \<and> short_id h = Some n \<longrightarrow> h = g)"
    then have q: "q = upper (slug (project g)) @ ''-'' @ base32_encode n"
      by (auto simp: qualified_short_id_def)
    have ex: "List.member [PENDING_DELETION, DELETION_IN_PROGRESS, PENDING_MERGE] (status g)"
      using h by (simp add: excluded_member)
    have p: "parse_short_id base32_decode max_id q
        = (if n > max_id then None else Some (slug (project g), n))"
    proof -
      have "parse_short_id base32_decode max_id q
        = (case base32_decode (base32_encode n) of None \<Rightarrow> None
           | Some k \<Rightarrow> if k > max_id then None else Some (slug (project g), k))"
        unfolding q using h by (intro parse_short_id_qualified) (simp_all add: codec_ok_def)
      then show ?thesis using h by (simp add: codec_ok_def)
    qed
    show "by_qualified_short_id base32_decode max_id groups (organization (project g)) q
              = Inl DoesNotExist"
    proof (cases "n > max_id")
      case True
      then show ?thesis using p by (simp add: by_qualified_short_id_def)
    next
      case False
      have "\<forall>x\<in>set ?live. \<not> (organization (project x) = organization (project g)
                  \<and> slug (project x) = slug (project g) \<and> short_id x = Some n)"
      proof
        fix x assume x: "x \<in> set ?live"
        show "\<not> (organization (project x) = organization (project g)
                  \<and> slug (project x) = slug (project g) \<and> short_id x = Some n)"
        proof
          assume "organization (project x) = organization (project g)
                  \<and> slug (project x) = slug (project g) \<and> short_id x = Some n"
          moreover have "x \<in> set groups" using x by simp
          ultimately have "x = g" using h by blast
          then show False using x ex by simp
        qed
      qed
      then have "queryset_get (\<lambda>x. organization (project x) = organization (project g)
                  \<and> slug (project x) = slug (project g) \<and> short_id x = Some n) ?live
          = Inl DoesNotExist"
        by (rule queryset_get_none)
      then show ?thesis using p False by (simp add: by_qualified_short_id_def)
    qed
  qed
  from first second show ?thesis by (rule conjI)
qed

text \<open>
  A store with a group pending merge and a live group of the same project: the first
  is not found by its qualified short id, the second is.
\<close>

theorem by_qualified_short_id_excludes_witness:
  "by_qualified_short_id example_decode 9223372036854775807
      [example_group\<lparr>status := PENDING_MERGE\<rparr>, example_survivor] 1 ''PROJECT-1D''
     = Inr example_survivor
   \<and> status example_survivor \<noteq> PENDING_DELETION
   \<and> status example_survivor \<noteq> DELETION_IN_PROGRESS
   \<and> status example_survivor \<noteq> PENDING_MERGE
   \<and> by_qualified_short_id example_decode 9223372036854775807
      [example_group\<lparr>status := PENDING_MERGE\<rparr>, example_survivor] 1 ''PROJECT-1C''
     = Inl DoesNotExist"
proof -
  let ?g = "example_group\<lparr>status := PENDING_MERGE\<rparr>"
  let ?groups = "[?g, example_survivor]"
  have p: "parse_short_id example_decode 9223372036854775807 ''PROJECT-1D''
      = Some (''project'', 45)" by code_simp
  have live: "by_qualified_short_id example_decode 9223372036854775807 ?groups 1 ''PROJECT-1D''
     = Inr example_survivor"
    by (simp add: by_qualified_short_id_def p queryset_get_def example_group_def
        example_survivor_def example_project_def)
  have q: "qualified_short_id example_encode ?g = Some ''PROJECT-1C''"
  proof -
    have "upper ''project'' @ ''-'' @ example_encode 44 = ''PROJECT-1C''" by code_simp
    then show ?thesis
      by (simp add: qualified_short_id_def example_group_def example_project_def)
  qed
  have codec: "codec_ok example_decode example_encode 44" by code_simp
  have sl: "slug_ok (slug (project ?g))"
    unfolding example_group_def example_project_def by simp code_simp
  have pre: "?g \<in> set ?groups
        \<and> (status ?g = PENDING_DELETION \<or> status ?g = DELETION_IN_PROGRESS
            \<or> status ?g = PENDING_MERGE)
        \<and> short_id ?g = Some 44 \<and> qualified_short_id example_encode ?g = Some ''PROJECT-1C''
        \<and> codec_ok example_decode example_encode 44 \<and> slug_ok (slug (project ?g))
        \<and> (\<forall>h\<in>set ?groups. organization (project h) = organization (project ?g)
              \<and> slug (project h) = slug (project ?g) \<and> short_id h = Some 44 \<longrightarrow> h = ?g)"
    using q codec sl by (simp add: example_group_def example_survivor_def)
  have org: "organization (project ?g) = 1"
    by (simp add: example_group_def example_project_def)
  show ?thesis
    using by_qualified_short_id_excludes [where base32_decode = example_decode
        and base32_encode = example_encode and max_id = 9223372036854775807
        and groups = ?groups and org = 1 and tok = "''PROJECT-1D''" and r = example_survivor
        and g = ?g and n = 44 and q = "''PROJECT-1C''"] live pre
    unfolding org by blast
qed

section \<open>Team creation\<close>

lemma serializer_is_valid_Inr:
  assumes "serializer_is_valid d = Inr result"
  shows "result ''name'' = d ''name''" and "result ''slug'' = d ''slug''"
    and "truthy (d ''name'') \<or> truthy (d ''slug'')"
    and "name_errors (d ''name'') = []" and "slug_errors (d ''slug'') = []"
proof -
  have fe: "name_errors (d ''name'') = [] \<and> slug_errors (d ''slug'') = []"
    using assms by (auto simp: serializer_is_valid_def Let_def split: if_splits)
  then have v: "validate (d |` {''name'', ''slug''}) = Inr result"
    using assms by (auto simp: serializer_is_valid_def Let_def split: sum.splits)
  then have r: "result = d |` {''name'', ''slug''}"
    and t: "truthy ((d |` {''name'', ''slug''}) ''name'') \<or> truthy ((d |` {''name'', ''slug''}) ''slug'')"
    by (auto simp: validate_def split: if_splits)
  show "result ''name'' = d ''name''" "result ''slug'' = d ''slug''" using r by simp_all
  show "truthy (d ''name'') \<or> truthy (d ''slug'')" using t by simp
  show "name_errors (d ''name'') = []" "slug_errors (d ''slug'') = []" using fe by simp_all
qed

lemma serializer_is_valid_empty:
  assumes "\<not> truthy (d ''name'')" "\<not> truthy (d ''slug'')"
  shows "serializer_is_valid d = Inl [(''non_field_errors'', JList [''Name or slug is required''])]"
proof -
  have "name_errors (d ''name'') = []" using assms(1)
    by (auto simp: name_errors_def truthy_def split: option.splits)
  moreover have "slug_errors (d ''slug'') = []" using assms(2)
    by (auto simp: slug_errors_def truthy_def split: option.splits)
  moreover have "validate (d |` {''name'', ''slug''}) = Inl [''Name or slug is required'']"
    using assms by (simp add: validate_def)
  ultimately show ?thesis by (simp add: serializer_is_valid_def)
qed


lemma post_valid:
  assumes v: "serializer_is_valid (DATA req) = Inr result"
  shows "post slugify b req org =
     (let name1 = (if truthy (DATA req ''name'') then the (DATA req ''name'')
                   else the (DATA req ''slug''))
      in case team_create slugify (teams b) name1 (DATA req ''slug'') org of
           None \<Rightarrow>
             Inr (\<lparr>status_code = 409,
                   data = Dict [(''non_field_errors'', JList [CONFLICTING_SLUG_ERROR]),
                                (''detail'', JStr CONFLICTING_SLUG_ERROR)]\<rparr>, b)
         | Some (t, teams1) \<Rightarrow>
             (let b1 = b\<lparr>teams := teams1, team_created := team_created b @ [t]\<rparr>;
                  b2 = (if is_authenticated req
                        then (case organization_members b1 (user req, org) of
                                None \<Rightarrow> b1
                              | Some member \<Rightarrow>
                                  b1\<lparr>member_teams := member_teams b1 @ [(team_id t, member)]\<rparr>)
                        else b1);
                  b3 = b2\<lparr>audit_log := audit_log b2 @ [(org, team_id t)]\<rparr>
              in Inr (\<lparr>status_code = 201, data = Serialized t\<rparr>, b3)))"
proof -
  note r = serializer_is_valid_Inr [OF v]
  have n: "(if truthy (result ''name'') then Inr (the (result ''name''))
            else (case result ''slug'' of None \<Rightarrow> Inl KeyError | Some x \<Rightarrow> Inr x))
        = (Inr (if truthy (DATA req ''name'') then the (DATA req ''name'')
                else the (DATA req ''slug'')) :: py_error + string)"
    using r(1,2,3) by (auto simp: truthy_def split: option.splits)
  show ?thesis
    apply (simp only: post_def v sum.case)
    apply (simp only: n sum.case)
    apply (simp only: r(2) Let_def)
    done
qed


text \<open>
  Claim C10. For the team-creation endpoint: a body in which neither \<open>name\<close> nor
  \<open>slug\<close> has a value fails validation, and the response is 400 with a non-empty
  error dictionary; a validated request whose slug is that of a team of the same
  organization gets 409 with the fixed conflict message under \<open>non_field_errors\<close> and
  \<open>detail\<close>; a validated request whose slug (given, or derived from the name) is
  free in the organization gets 201 with the created team, which is stored with that
  slug. A 400 and a 409 leave the backend unchanged.
\<close>

theorem post_responses:
  "(\<not> truthy (DATA req ''name'') \<and> \<not> truthy (DATA req ''slug'') \<longrightarrow>
      (\<exists>errors. errors \<noteq> []
         \<and> post slugify b req org = Inr (\<lparr>status_code = 400, data = Dict errors\<rparr>, b)))
   \<and> (serializer_is_valid (DATA req) = Inr result \<and> DATA req ''slug'' = Some s \<and> s \<noteq> []
        \<and> (\<exists>t\<in>set (teams b). team_organization t = org \<and> team_slug t = s) \<longrightarrow>
      post slugify b req org =
        Inr (\<lparr>status_code = 409,
              data = Dict [(''non_field_errors'', JList [CONFLICTING_SLUG_ERROR]),
                           (''detail'', JStr CONFLICTING_SLUG_ERROR)]\<rparr>, b))
   \<and> (serializer_is_valid (DATA req) = Inr result
        \<and> s = (if truthy (DATA req ''slug'') then the (DATA req ''slug'')
                else slugify (teams b) org (the (DATA req ''name'')))
        \<and> \<not> (\<exists>t\<in>set (teams b). team_organization t = org \<and> team_slug t = s) \<longrightarrow>
      (\<exists>t b'. post slugify b req org = Inr (\<lparr>status_code = 201, data = Serialized t\<rparr>, b')
         \<and> t \<in> set (teams b') \<and> team_organization t = org \<and> team_slug t = s))"
proof -
  have first: "\<not> truthy (DATA req ''name'') \<and> \<not> truthy (DATA req ''slug'') \<longrightarrow>
      (\<exists>errors. errors \<noteq> []
         \<and> post slugify b req org = Inr (\<lparr>status_code = 400, data = Dict errors\<rparr>, b))"
  proof (rule impI)
    assume "\<not> truthy (DATA req ''name'') \<and> \<not> truthy (DATA req ''slug'')"
    then have "serializer_is_valid (DATA req)
        = Inl [(''non_field_errors'', JList [''Name or slug is required''])]"
      by (simp add: serializer_is_valid_empty)
    then have "post slugify b req org = Inr (\<lparr>status_code = 400,
        data = Dict [(''non_field_errors'', JList [''Name or slug is required''])]\<rparr>, b)"
      by (simp add: post_def)
    then show "\<exists>errors. errors \<noteq> []
         \<and> post slugify b req org = Inr (\<lparr>status_code = 400, data = Dict errors\<rparr>, b)"
      by blast
  qed
  have second: "serializer_is_valid (DATA req) = Inr result \<and> DATA req ''slug'' = Some s \<and> s \<noteq> []
        \<and> (\<exists>t\<in>set (teams b). team_organization t = org \<and> team_slug t = s) \<longrightarrow>
      post slugify b req org =
        Inr (\<lparr>status_code = 409,
              data = Dict [(''non_field_errors'', JList [CONFLICTING_SLUG_ERROR]),
                           (''detail'', JStr CONFLICTING_SLUG_ERROR)]\<rparr>, b)"
  proof (rule impI)
    assume h: "serializer_is_valid (DATA req) = Inr result \<and> DATA req ''slug'' = Some s \<and> s \<noteq> []
        \<and> (\<exists>t\<in>set (teams b). team_organization t = org \<and> team_slug t = s)"
    then have v: "serializer_is_valid (DATA req) = Inr result" by simp
    have "team_create slugify (teams b) nm (DATA req ''slug'') org = None" for nm
      using h by (auto simp: team_create_def truthy_def list_ex_iff)
    then show "post slugify b req org =
        Inr (\<lparr>status_code = 409,
              data = Dict [(''non_field_errors'', JList [CONFLICTING_SLUG_ERROR]),
                           (''detail'', JStr CONFLICTING_SLUG_ERROR)]\<rparr>, b)"
      by (simp add: post_valid [OF v])
  qed
  have third: "serializer_is_valid (DATA req) = Inr result
        \<and> s = (if truthy (DATA req ''slug'') then the (DATA req ''slug'')
                else slugify (teams b) org (the (DATA req ''name'')))
        \<and> \<not> (\<exists>t\<in>set (teams b). team_organization t = org \<and> team_slug t = s) \<longrightarrow>
      (\<exists>t b'. post slugify b req org = Inr (\<lparr>status_code = 201, data = Serialized t\<rparr>, b')
         \<and> t \<in> set (teams b') \<and> team_organization t = org \<and> team_slug t = s)"
  proof (rule impI)
    assume h: "serializer_is_valid (DATA req) = Inr result
        \<and> s = (if truthy (DATA req ''slug'') then the (DATA req ''slug'')
                else slugify (teams b) org (the (DATA req ''name'')))
        \<and> \<not> (\<exists>t\<in>set (teams b). team_organization t = org \<and> team_slug t = s)"
    then have v: "serializer_is_valid (DATA req) = Inr result" by simp
    let ?nm = "if truthy (DATA req ''name'') then the (DATA req ''name'')
                   else the (DATA req ''slug'')"
    let ?t = "\<lparr>team_id = fold max (map team_id (teams b)) 0 + 1, team_name = ?nm,
                team_slug = s, team_organization = org\<rparr>"
    have tr: "truthy (DATA req ''name'') \<or> truthy (DATA req ''slug'')"
      using v by (rule serializer_is_valid_Inr(3))
    have sl: "(if truthy (DATA req ''slug'') then the (DATA req ''slug'')
               else slugify (teams b) org ?nm) = s"
      using h tr by auto
    have free: "\<not> list_ex (\<lambda>t. team_organization t = org \<and> team_slug t = s) (teams b)"
      unfolding list_ex_iff using h by blast
    have tc: "team_create slugify (teams b) ?nm (DATA req ''slug'') org = Some (?t, teams b @ [?t])"
      unfolding team_create_def Let_def sl using free by simp
    have "\<exists>b'. post slugify b req org = Inr (\<lparr>status_code = 201, data = Serialized ?t\<rparr>, b')
         \<and> teams b' = teams b @ [?t]"
      unfolding post_valid [OF v] Let_def tc
      by (simp split: option.splits)
    then obtain b' where
      "post slugify b req org = Inr (\<lparr>status_code = 201, data = Serialized ?t\<rparr>, b')"
      "teams b' = teams b @ [?t]" by blast
    moreover have "?t \<in> set (teams b @ [?t])" by simp
    ultimately show "\<exists>t b'. post slugify b req org
          = Inr (\<lparr>status_code = 201, data = Serialized t\<rparr>, b')
         \<and> t \<in> set (teams b') \<and> team_organization t = org \<and> team_slug t = s"
      by (intro exI [of _ ?t] exI [of _ b']) simp
  qed
  from first second third show ?thesis by blast
qed


text \<open>
  Three requests to an organization that has the team \<open>ops\<close>: an empty body, the
  slug \<open>ops\<close>, and the name \<open>Ancient Gabelers\<close>.
\<close>

theorem post_responses_witness:
  "(\<exists>errors. errors \<noteq> []
      \<and> post example_slugify example_backend
           \<lparr>DATA = Map.empty, user = 5, is_authenticated = True\<rparr> 1
         = Inr (\<lparr>status_code = 400, data = Dict errors\<rparr>, example_backend))
   \<and> post example_slugify example_backend
        \<lparr>DATA = [''slug'' \<mapsto> ''ops''], user = 5, is_authenticated = True\<rparr> 1
       = Inr (\<lparr>status_code = 409,
               data = Dict [(''non_field_errors'', JList [CONFLICTING_SLUG_ERROR]),
                            (''detail'', JStr CONFLICTING_SLUG_ERROR)]\<rparr>, example_backend)
   \<and> (\<exists>t b'. post example_slugify example_backend
          \<lparr>DATA = [''name'' \<mapsto> ''Ancient Gabelers''], user = 5, is_authenticated = True\<rparr> 1
         = Inr (\<lparr>status_code = 201, data = Serialized t\<rparr>, b')
       \<and> t \<in> set (teams b') \<and> team_organization t = 1
       \<and> team_slug t = ''ancient-gabelers'')"
proof -
  let ?r1 = "\<lparr>DATA = Map.empty, user = 5, is_authenticated = True\<rparr>"
  let ?r2 = "\<lparr>DATA = [''slug'' \<mapsto> ''ops''], user = 5, is_authenticated = True\<rparr>"
  let ?r3 = "\<lparr>DATA = [''name'' \<mapsto> ''Ancient Gabelers''], user = 5, is_authenticated = True\<rparr>"
  have h1: "\<not> truthy (DATA ?r1 ''name'') \<and> \<not> truthy (DATA ?r1 ''slug'')"
    by (simp add: truthy_def)
  have m: "slug_re_match ''ops''" by code_simp
  have v2: "serializer_is_valid (DATA ?r2) = Inr ([''slug'' \<mapsto> ''ops''] |` {''name'', ''slug''})"
    by (simp add: serializer_is_valid_def name_errors_def slug_errors_def m validate_def
        truthy_def)
  have h2: "serializer_is_valid (DATA ?r2) = Inr ([''slug'' \<mapsto> ''ops''] |` {''name'', ''slug''})
      \<and> DATA ?r2 ''slug'' = Some ''ops'' \<and> ''ops'' \<noteq> []
      \<and> (\<exists>t\<in>set (teams example_backend). team_organization t = 1 \<and> team_slug t = ''ops'')"
    using v2 by (simp add: example_backend_def)
  have v3: "serializer_is_valid (DATA ?r3)
      = Inr ([''name'' \<mapsto> ''Ancient Gabelers''] |` {''name'', ''slug''})"
    by (simp add: serializer_is_valid_def name_errors_def slug_errors_def validate_def
        truthy_def)
  have sg: "example_slugify (teams example_backend) 1 ''Ancient Gabelers'' = ''ancient-gabelers''"
    by code_simp
  have h3: "serializer_is_valid (DATA ?r3)
        = Inr ([''name'' \<mapsto> ''Ancient Gabelers''] |` {''name'', ''slug''})
      \<and> ''ancient-gabelers'' = (if truthy (DATA ?r3 ''slug'') then the (DATA ?r3 ''slug'')
                else example_slugify (teams example_backend) 1 (the (DATA ?r3 ''name'')))
      \<and> \<not> (\<exists>t\<in>set (teams example_backend). team_organization t = 1
              \<and> team_slug t = ''ancient-gabelers'')"
    using v3 sg by (simp add: truthy_def example_backend_def)
  show ?thesis
    using post_responses [where req = ?r1 and slugify = example_slugify and b = example_backend
        and org = 1, THEN conjunct1, rule_format, OF h1]
      post_responses [where req = ?r2 and slugify = example_slugify and b = example_backend
        and org = 1, THEN conjunct2, THEN conjunct1, rule_format, OF h2]
      post_responses [where req = ?r3 and slugify = example_slugify and b = example_backend
        and org = 1, THEN conjunct2, THEN conjunct2, rule_format, OF h3]
    by blast
qed

end
